theory Spec2Isabelle
  imports Complex_Main
begin

section \<open>Data model (internal/models)\<close>

text \<open>
  \<^verbatim>\<open>models.DailyTimeEntry\<close>: one row of the table \<^verbatim>\<open>daily_time\<close>. Go's \<^verbatim>\<open>int\<close> and
  SQLite's INTEGER are 64-bit; a counter that grows by one per minute stays far below
  that range, so the fields are unbounded integers here. Timestamps
  (\<^verbatim>\<open>time.Time\<close>, \<^verbatim>\<open>CURRENT_TIMESTAMP\<close>) are natural numbers.
\<close>

record DailyTimeEntry =
  ID :: int
  Date :: string
  ActiveMinutes :: int
  GoalMinutes :: int
  IsPaused :: bool
  AutoLogged :: bool
  AutoLogResponse :: string
  CreatedAt :: nat
  UpdatedAt :: nat

text \<open>\<^verbatim>\<open>models.SystemEvent\<close>: one row of the table \<^verbatim>\<open>system_events\<close>.\<close>

record SystemEvent =
  EventID :: int
  EventType :: string
  Timestamp :: nat
  Details :: string

text \<open>
  Go errors. \<open>Errorf msg (Some e)\<close> is \<^verbatim>\<open>fmt.Errorf(msg + ": %w", e)\<close>, \<open>Errorf msg None\<close>
  is \<^verbatim>\<open>fmt.Errorf(msg)\<close>. \<open>ErrNoRows\<close> is \<^verbatim>\<open>sql.ErrNoRows\<close>; \<open>DriverFault\<close> is any
  other error of the SQL driver (I/O, lock, disk); \<open>UniqueViolation\<close> is the failure
  of an INSERT against \<^verbatim>\<open>date TEXT UNIQUE NOT NULL\<close>; \<open>APIError service code message\<close> is
  \<^verbatim>\<open>api.APIError\<close>, the error of a time tracking service (401 and 403: authentication,
  429: rate limit).
\<close>

datatype error =
    ErrNoRows
  | DriverFault
  | UniqueViolation
  | APIError string int string
  | Errorf string "error option"

section \<open>Persistence (internal/database/sqlite.go)\<close>

text \<open>
  The database behind \<^verbatim>\<open>database.DB\<close>: the two tables that \<^verbatim>\<open>initSchema\<close> creates, the
  AUTOINCREMENT counters of their \<^verbatim>\<open>id\<close> columns, and a schedule of driver faults: every
  call into the driver (\<^verbatim>\<open>QueryRow(...).Scan\<close>, \<^verbatim>\<open>Exec\<close>, \<^verbatim>\<open>LastInsertId\<close>,
  \<^verbatim>\<open>RowsAffected\<close>) takes the next flag of \<open>faults\<close> and fails when it is \<open>True\<close>; an
  exhausted schedule means no further fault.
\<close>

record DB =
  daily_time :: "DailyTimeEntry list"
  system_events :: "SystemEvent list"
  daily_time_seq :: int
  system_events_seq :: int
  faults :: "bool list"

text \<open>The database right after \<^verbatim>\<open>NewDB\<close> on a new file: \<^verbatim>\<open>initSchema\<close> has created empty tables.\<close>

definition initSchema :: "bool list \<Rightarrow> DB" where
  "initSchema fs =
     \<lparr>daily_time = [], system_events = [], daily_time_seq = 0, system_events_seq = 0,
      faults = fs\<rparr>"

definition driver_call :: "DB \<Rightarrow> bool \<times> DB" where
  "driver_call db =
     (case faults db of [] \<Rightarrow> (False, db) | f # fs \<Rightarrow> (f, db\<lparr>faults := fs\<rparr>))"

text \<open>\<^verbatim>\<open>SELECT ... FROM daily_time WHERE date = ?\<close> through \<^verbatim>\<open>QueryRow(...).Scan\<close>.\<close>

definition select_by_date :: "string \<Rightarrow> DB \<Rightarrow> (error + DailyTimeEntry) \<times> DB" where
  "select_by_date date db =
     (case driver_call db of
        (True, db1) \<Rightarrow> (Inl DriverFault, db1)
      | (False, db1) \<Rightarrow>
          (case find (\<lambda>r. Date r = date) (daily_time db1) of
             None \<Rightarrow> (Inl ErrNoRows, db1)
           | Some r \<Rightarrow> (Inr r, db1)))"

text \<open>\<^verbatim>\<open>SELECT ... FROM daily_time WHERE id = ?\<close> through \<^verbatim>\<open>QueryRow(...).Scan\<close>.\<close>

definition select_by_id :: "int \<Rightarrow> DB \<Rightarrow> (error + DailyTimeEntry) \<times> DB" where
  "select_by_id i db =
     (case driver_call db of
        (True, db1) \<Rightarrow> (Inl DriverFault, db1)
      | (False, db1) \<Rightarrow>
          (case find (\<lambda>r. ID r = i) (daily_time db1) of
             None \<Rightarrow> (Inl ErrNoRows, db1)
           | Some r \<Rightarrow> (Inr r, db1)))"

text \<open>
  \<^verbatim>\<open>INSERT INTO daily_time (date, active_minutes, goal_minutes, is_paused, auto_logged)
  VALUES (?, 0, 480, FALSE, FALSE)\<close>; the other columns take their defaults. The result
  is the new row id.
\<close>

definition insert_daily_time :: "nat \<Rightarrow> string \<Rightarrow> DB \<Rightarrow> (error + int) \<times> DB" where
  "insert_daily_time ts date db =
     (case driver_call db of
        (True, db1) \<Rightarrow> (Inl DriverFault, db1)
      | (False, db1) \<Rightarrow>
          if date \<in> set (map Date (daily_time db1)) then (Inl UniqueViolation, db1)
          else
            let i = daily_time_seq db1 + 1;
                row = \<lparr>ID = i, Date = date, ActiveMinutes = 0, GoalMinutes = 480,
                       IsPaused = False, AutoLogged = False, AutoLogResponse = [],
                       CreatedAt = ts, UpdatedAt = ts\<rparr>
            in (Inr i, db1\<lparr>daily_time := daily_time db1 @ [row], daily_time_seq := i\<rparr>))"

text \<open>An UPDATE of \<^verbatim>\<open>daily_time\<close>: \<open>upd\<close> on every row that satisfies \<open>cond\<close>; the result is
  the number of rows affected.\<close>

definition update_daily_time ::
  "(DailyTimeEntry \<Rightarrow> bool) \<Rightarrow> (DailyTimeEntry \<Rightarrow> DailyTimeEntry) \<Rightarrow> DB \<Rightarrow> (error + nat) \<times> DB"
where
  "update_daily_time cond upd db =
     (case driver_call db of
        (True, db1) \<Rightarrow> (Inl DriverFault, db1)
      | (False, db1) \<Rightarrow>
          (Inr (length (filter cond (daily_time db1))),
           db1\<lparr>daily_time := map (\<lambda>r. if cond r then upd r else r) (daily_time db1)\<rparr>))"

text \<open>\<^verbatim>\<open>LogSystemEvent\<close>: \<^verbatim>\<open>INSERT INTO system_events (event_type, details) VALUES (?, ?)\<close>.\<close>

definition LogSystemEvent :: "nat \<Rightarrow> string \<Rightarrow> string \<Rightarrow> DB \<Rightarrow> error option \<times> DB" where
  "LogSystemEvent ts eventType details db =
     (case driver_call db of
        (True, db1) \<Rightarrow> (Some (Errorf ''failed to log system event'' (Some DriverFault)), db1)
      | (False, db1) \<Rightarrow>
          let i = system_events_seq db1 + 1;
              ev = \<lparr>EventID = i, EventType = eventType, Timestamp = ts, Details = details\<rparr>
          in (None, db1\<lparr>system_events := system_events db1 @ [ev], system_events_seq := i\<rparr>))"

text \<open>\<^verbatim>\<open>GetEntryByID\<close>.\<close>

definition GetEntryByID :: "int \<Rightarrow> DB \<Rightarrow> (error + DailyTimeEntry) \<times> DB" where
  "GetEntryByID i db =
     (case select_by_id i db of
        (Inl err, db1) \<Rightarrow> (Inl (Errorf ''failed to get entry by ID'' (Some err)), db1)
      | (Inr entry, db1) \<Rightarrow> (Inr entry, db1))"

text \<open>\<^verbatim>\<open>createEntryForDate\<close>: the INSERT, \<^verbatim>\<open>LastInsertId\<close>, then \<^verbatim>\<open>GetEntryByID\<close>.\<close>

definition createEntryForDate :: "nat \<Rightarrow> string \<Rightarrow> DB \<Rightarrow> (error + DailyTimeEntry) \<times> DB" where
  "createEntryForDate ts date db =
     (case insert_daily_time ts date db of
        (Inl err, db1) \<Rightarrow> (Inl (Errorf ''failed to create daily time entry'' (Some err)), db1)
      | (Inr i, db1) \<Rightarrow>
          (case driver_call db1 of
             (True, db2) \<Rightarrow> (Inl (Errorf ''failed to get last insert ID'' (Some DriverFault)), db2)
           | (False, db2) \<Rightarrow> GetEntryByID i db2))"

text \<open>\<^verbatim>\<open>GetEntryForDate\<close>: gets or creates the entry of a date. \<^verbatim>\<open>GetTodayEntry\<close> is this
  function at \<^verbatim>\<open>time.Now().Format("2006-01-02")\<close>.\<close>

definition GetEntryForDate :: "nat \<Rightarrow> string \<Rightarrow> DB \<Rightarrow> (error + DailyTimeEntry) \<times> DB" where
  "GetEntryForDate ts date db =
     (case select_by_date date db of
        (Inr entry, db1) \<Rightarrow> (Inr entry, db1)
      | (Inl err, db1) \<Rightarrow>
          if err = ErrNoRows then createEntryForDate ts date db1
          else (Inl (Errorf ''failed to query daily time entry'' (Some err)), db1))"

text \<open>\<^verbatim>\<open>IncrementActiveTimeForDate\<close>; \<^verbatim>\<open>IncrementActiveTime\<close> is this function at today's
  date. The error of \<^verbatim>\<open>LogSystemEvent\<close> is dropped, as in the source.\<close>

definition IncrementActiveTimeForDate :: "nat \<Rightarrow> string \<Rightarrow> DB \<Rightarrow> error option \<times> DB" where
  "IncrementActiveTimeForDate ts date db =
     (case GetEntryForDate ts date db of
        (Inl err, db1) \<Rightarrow> (Some (Errorf ''failed to ensure entry exists'' (Some err)), db1)
      | (Inr _, db1) \<Rightarrow>
          (case update_daily_time (\<lambda>r. Date r = date \<and> IsPaused r = False)
                  (\<lambda>r. r\<lparr>ActiveMinutes := ActiveMinutes r + 1, UpdatedAt := ts\<rparr>) db1 of
             (Inl err, db2) \<Rightarrow> (Some (Errorf ''failed to increment active time'' (Some err)), db2)
           | (Inr rowsAffected, db2) \<Rightarrow>
               (case driver_call db2 of
                  (True, db3) \<Rightarrow>
                    (Some (Errorf ''failed to get rows affected'' (Some DriverFault)), db3)
                | (False, db3) \<Rightarrow>
                    if rowsAffected = 0
                    then (None, snd (LogSystemEvent ts ''increment_skipped_paused''
                                       (''Date: '' @ date) db3))
                    else (None, db3))))"

text \<open>\<^verbatim>\<open>SetPauseStateForDate\<close>; \<^verbatim>\<open>SetPauseState\<close> is this function at today's date.\<close>

definition SetPauseStateForDate :: "nat \<Rightarrow> string \<Rightarrow> bool \<Rightarrow> DB \<Rightarrow> error option \<times> DB" where
  "SetPauseStateForDate ts date paused db =
     (case GetEntryForDate ts date db of
        (Inl err, db1) \<Rightarrow> (Some (Errorf ''failed to ensure entry exists'' (Some err)), db1)
      | (Inr _, db1) \<Rightarrow>
          (case update_daily_time (\<lambda>r. Date r = date)
                  (\<lambda>r. r\<lparr>IsPaused := paused, UpdatedAt := ts\<rparr>) db1 of
             (Inl err, db2) \<Rightarrow> (Some (Errorf ''failed to set pause state'' (Some err)), db2)
           | (Inr _, db2) \<Rightarrow>
               (None, snd (LogSystemEvent ts (if paused then ''pause'' else ''resume'')
                             (''Date: '' @ date) db2))))"

text \<open>\<^verbatim>\<open>MarkAsAutoLogged\<close>.\<close>

definition MarkAsAutoLogged :: "nat \<Rightarrow> string \<Rightarrow> string \<Rightarrow> DB \<Rightarrow> error option \<times> DB" where
  "MarkAsAutoLogged ts date response db =
     (case update_daily_time (\<lambda>r. Date r = date)
             (\<lambda>r. r\<lparr>AutoLogged := True, AutoLogResponse := response, UpdatedAt := ts\<rparr>) db of
        (Inl err, db1) \<Rightarrow> (Some (Errorf ''failed to mark as auto-logged'' (Some err)), db1)
      | (Inr _, db1) \<Rightarrow>
          (None, snd (LogSystemEvent ts ''auto_logged'' (''Date: '' @ date) db1)))"

section \<open>The process state\<close>

text \<open>
  Go objects of type \<^verbatim>\<open>models.DailyTimeEntry\<close> live on the heap and are passed around as
  pointers, so the heap is explicit: an address is a number, \<open>heap\<close> gives the object
  at an address, and \<open>heap_next\<close> is the next unused address. A pointer that may be
  \<^verbatim>\<open>nil\<close> is an \<open>addr option\<close>. Go is garbage collected: an address in use is never
  recycled.
\<close>

type_synonym addr = nat

text \<open>A registered \<^verbatim>\<open>ActivityStateChangeCallback\<close> is opaque to the engine; it is named
  by a number.\<close>

type_synonym callback = nat

text \<open>\<^verbatim>\<open>go callback(isActive, entry)\<close>: a goroutine that has been started. The statement
  only starts it; the callback runs concurrently, whenever the scheduler picks it
  (\<open>schedule\<close> below), and receives the pointer \<open>g_entry\<close>.\<close>

record goroutine =
  g_callback :: callback
  g_isActive :: bool
  g_entry :: addr

text \<open>The lines written through \<^verbatim>\<open>log.Printf\<close>, one constructor per call site.\<close>

datatype log_line =
    LogDetectorStarted int
  | LogDetectorStopped
  | LogTimeTracking bool
  | LogIncrementError error
  | LogRefreshError error
  | LogTimeIncremented int
  | LogThresholdReached int
  | LogDayRollover
  | LogNewDayError error
  | LogSystemEventError error
  | LogQueued string
  | LogQueueFull string
  | LogQueuedManual string
  | LogQueueFullManual string
  | LogProcessing string
  | LogMarkError error
  | LogSuccess string string
  | LogPreferredFailed string error
  | LogSuccessFallback string string
  | LogFailed string error
  | LogFailedAny string
  | LogAutoLogging string
  | LogSimpleSuccess string string
  | LogSimpleFailed string error
  | LogSimpleSuccessFallback string string
  | LogSimpleFailedAny string

text \<open>\<^verbatim>\<open>api.LogRequest\<close>.\<close>

record LogRequest =
  Entry :: "addr option"
  Description :: string
  Force :: bool

text \<open>\<^verbatim>\<open>api.TimeEntry\<close>. \<open>te_Hours\<close> is \<^verbatim>\<open>float64(ActiveMinutes) / 60.0\<close>, here a real
  number; \<open>te_Date\<close> keeps the date string that \<^verbatim>\<open>time.Parse\<close> reads.\<close>

record TimeEntry =
  te_Date :: string
  te_Hours :: real
  te_Minutes :: int
  te_Description :: string
  te_ProjectID :: string
  te_WorkspaceID :: string
  te_Tags :: "string list"

record process =
  db :: DB
  heap :: "addr \<Rightarrow> DailyTimeEntry"
  heap_next :: addr
  goroutines :: "goroutine list"
  invoked :: "goroutine list"
  log_output :: "log_line list"
  monitorRunning :: bool
  isTracking :: bool
  currentEntry :: "addr option"
  stateChangeCallbacks :: "callback list"
  logChan :: "LogRequest list"
  api_calls :: "(string \<times> TimeEntry) list"

text \<open>\<open>&models.DailyTimeEntry{...}\<close>: a new object on the heap.\<close>

definition new_entry :: "DailyTimeEntry \<Rightarrow> process \<Rightarrow> addr \<times> process" where
  "new_entry e s =
     (heap_next s, s\<lparr>heap := (heap s)(heap_next s := e), heap_next := Suc (heap_next s)\<rparr>)"

definition logPrintf :: "log_line \<Rightarrow> process \<Rightarrow> process" where
  "logPrintf l s = s\<lparr>log_output := log_output s @ [l]\<rparr>"

text \<open>The scheduler runs the oldest started goroutine: its callback is invoked with the
  arguments it was started with.\<close>

definition schedule :: "process \<Rightarrow> process" where
  "schedule s =
     (case goroutines s of
        [] \<Rightarrow> s
      | g # gs \<Rightarrow> s\<lparr>goroutines := gs, invoked := invoked s @ [g]\<rparr>)"

text \<open>\<^verbatim>\<open>db.GetTodayEntry()\<close> as the detector sees it: the entry comes back as a pointer to a
  new object. \<open>today\<close> is \<^verbatim>\<open>time.Now().Format("2006-01-02")\<close> at the call.\<close>

definition GetTodayEntry :: "nat \<Rightarrow> string \<Rightarrow> process \<Rightarrow> (error + addr) \<times> process" where
  "GetTodayEntry ts today s =
     (case GetEntryForDate ts today (db s) of
        (Inl err, db1) \<Rightarrow> (Inl err, s\<lparr>db := db1\<rparr>)
      | (Inr e, db1) \<Rightarrow> (case new_entry e (s\<lparr>db := db1\<rparr>) of (p, s1) \<Rightarrow> (Inr p, s1)))"

section \<open>The activity detector (internal/tracker/activity_detector.go)\<close>

text \<open>\<^verbatim>\<open>notifyStateChange\<close>: one goroutine per registered callback, each with the pointer
  it was given.\<close>

definition notifyStateChange :: "bool \<Rightarrow> addr \<Rightarrow> process \<Rightarrow> process" where
  "notifyStateChange isActive entry s =
     s\<lparr>goroutines := goroutines s @
          map (\<lambda>cb. \<lparr>g_callback = cb, g_isActive = isActive, g_entry = entry\<rparr>)
            (stateChangeCallbacks s)\<rparr>"

text \<open>\<^verbatim>\<open>ActivityConfig\<close>, as \<^verbatim>\<open>NewTimer\<close> fills it from the configuration file.\<close>

record ActivityConfig =
  cfg_GoalMinutes :: int
  cfg_AutoLogThresholdMinutes :: int

text \<open>\<^verbatim>\<open>NewTimer\<close> fills the \<^verbatim>\<open>ActivityConfig\<close> from \<^verbatim>\<open>config.General\<close>: the goal is
  \<^verbatim>\<open>GoalTimeHours * 60\<close>, the threshold \<^verbatim>\<open>int(AutoLogThresholdHours * 60)\<close>, given here in
  minutes.\<close>

definition NewTimer_config :: "int \<Rightarrow> int \<Rightarrow> ActivityConfig" where
  "NewTimer_config goalTimeHours autoLogThresholdMinutes =
     \<lparr>cfg_GoalMinutes = goalTimeHours * 60,
      cfg_AutoLogThresholdMinutes = autoLogThresholdMinutes\<rparr>"

text \<open>The process right after \<^verbatim>\<open>NewDB\<close>, \<^verbatim>\<open>NewActivityDetector\<close> and \<^verbatim>\<open>NewAutoLogger\<close>: no
  current entry, no callback, an empty channel, nothing on the heap.\<close>

definition NewActivityDetector :: "DB \<Rightarrow> process" where
  "NewActivityDetector c =
     \<lparr>db = c,
      heap = (\<lambda>_. \<lparr>ID = 0, Date = [], ActiveMinutes = 0, GoalMinutes = 0, IsPaused = False,
                    AutoLogged = False, AutoLogResponse = [], CreatedAt = 0, UpdatedAt = 0\<rparr>),
      heap_next = 0, goroutines = [], invoked = [], log_output = [],
      monitorRunning = False, isTracking = False, currentEntry = None,
      stateChangeCallbacks = [], logChan = [], api_calls = []\<rparr>"

text \<open>\<^verbatim>\<open>Start\<close>. \<open>today\<close> and \<open>ts\<close> are the clock at \<^verbatim>\<open>GetTodayEntry\<close>; the tracking loop
  it starts is the repeated \<open>processMinuteIncrement\<close> below.\<close>

definition Start :: "ActivityConfig \<Rightarrow> nat \<Rightarrow> string \<Rightarrow> process \<Rightarrow> error option \<times> process" where
  "Start cfg ts today s =
     (if isTracking s then (Some (Errorf ''activity detector is already running'' None), s)
      else if monitorRunning s
      then (Some (Errorf ''failed to start system monitor''
                    (Some (Errorf ''monitor is already running'' None))), s)
      else
        (case GetTodayEntry ts today (s\<lparr>monitorRunning := True\<rparr>) of
           (Inl err, s1) \<Rightarrow> (Some (Errorf ''failed to get today's entry'' (Some err)), s1)
         | (Inr p, s1) \<Rightarrow>
             (None, logPrintf (LogDetectorStarted (ActiveMinutes (heap s1 p)))
                      (s1\<lparr>currentEntry := Some p, isTracking := True\<rparr>))))"

text \<open>\<^verbatim>\<open>GetCurrentEntry\<close>: \<^verbatim>\<open>entryCopy := *ad.currentEntry; return &entryCopy\<close>.\<close>

definition GetCurrentEntry :: "process \<Rightarrow> addr option \<times> process" where
  "GetCurrentEntry s =
     (case currentEntry s of
        None \<Rightarrow> (None, s)
      | Some p \<Rightarrow> (case new_entry (heap s p) s of (q, s1) \<Rightarrow> (Some q, s1)))"

text \<open>\<^verbatim>\<open>TogglePause\<close>. \<open>today\<close> and \<open>ts\<close> are the clock inside \<^verbatim>\<open>db.SetPauseState\<close>, \<open>active\<close>
  is \<^verbatim>\<open>ad.monitor.IsSystemActive()\<close>.\<close>

definition TogglePause :: "nat \<Rightarrow> string \<Rightarrow> bool \<Rightarrow> process \<Rightarrow> error option \<times> process" where
  "TogglePause ts today active s =
     (case currentEntry s of
        None \<Rightarrow> (Some (Errorf ''no current entry to pause/resume'' None), s)
      | Some p \<Rightarrow>
          let newPauseState = \<not> IsPaused (heap s p) in
          (case SetPauseStateForDate ts today newPauseState (db s) of
             (Some err, db1) \<Rightarrow>
               (Some (Errorf ''failed to set pause state'' (Some err)), s\<lparr>db := db1\<rparr>)
           | (None, db1) \<Rightarrow>
               (None,
                notifyStateChange active p
                  (logPrintf (LogTimeTracking newPauseState)
                     (s\<lparr>db := db1,
                        heap := (heap s)(p := (heap s p)\<lparr>IsPaused := newPauseState\<rparr>)\<rparr>)))))"

text \<open>\<^verbatim>\<open>SetPause\<close>.\<close>

definition SetPause :: "nat \<Rightarrow> string \<Rightarrow> bool \<Rightarrow> bool \<Rightarrow> process \<Rightarrow> error option \<times> process" where
  "SetPause ts today active paused s =
     (case currentEntry s of
        None \<Rightarrow> (Some (Errorf ''no current entry to pause/resume'' None), s)
      | Some p \<Rightarrow>
          if IsPaused (heap s p) = paused then (None, s)
          else
            (case SetPauseStateForDate ts today paused (db s) of
               (Some err, db1) \<Rightarrow>
                 (Some (Errorf ''failed to set pause state'' (Some err)), s\<lparr>db := db1\<rparr>)
             | (None, db1) \<Rightarrow>
                 (None,
                  notifyStateChange active p
                    (logPrintf (LogTimeTracking paused)
                       (s\<lparr>db := db1,
                          heap := (heap s)(p := (heap s p)\<lparr>IsPaused := paused\<rparr>)\<rparr>)))))"

text \<open>\<^verbatim>\<open>AddStateChangeCallback\<close>.\<close>

definition AddStateChangeCallback :: "callback \<Rightarrow> process \<Rightarrow> process" where
  "AddStateChangeCallback cb s = s\<lparr>stateChangeCallbacks := stateChangeCallbacks s @ [cb]\<rparr>"

text \<open>\<^verbatim>\<open>DailyTimeEntry.ShouldAutoLog\<close>, at \<^verbatim>\<open>float64(AutoLogThresholdMinutes)/60.0\<close>: the
  threshold in minutes is \<^verbatim>\<open>int(thresholdHours * 60)\<close>, which gives the configured
  number of minutes back.\<close>

definition entry_ShouldAutoLog :: "int \<Rightarrow> DailyTimeEntry \<Rightarrow> bool" where
  "entry_ShouldAutoLog thresholdMinutes d =
     (\<not> AutoLogged d \<and> ActiveMinutes d \<ge> thresholdMinutes)"

text \<open>
  The clock and the probe as one tick reads them: \<open>probe_active\<close> is
  \<^verbatim>\<open>ad.monitor.GetCurrentState().IsActive\<close>; the four dates are
  \<^verbatim>\<open>time.Now().Format("2006-01-02")\<close> inside \<^verbatim>\<open>db.IncrementActiveTime()\<close>, inside the
  \<^verbatim>\<open>db.GetTodayEntry()\<close> that refreshes the entry, at the rollover test, and inside the
  \<^verbatim>\<open>db.GetTodayEntry()\<close> of the rollover; \<open>stamp\<close> is \<^verbatim>\<open>CURRENT_TIMESTAMP\<close>.
\<close>

record tick =
  probe_active :: bool
  stamp :: nat
  now_increment :: string
  now_refresh :: string
  now_rollover :: string
  now_newday :: string

text \<open>The day-rollover half of \<^verbatim>\<open>processMinuteIncrement\<close>; \<open>p\<close> is \<^verbatim>\<open>ad.currentEntry\<close>.\<close>

definition rollover :: "tick \<Rightarrow> addr \<Rightarrow> process \<Rightarrow> process" where
  "rollover t p s =
     (if Date (heap s p) \<noteq> now_rollover t then
        (case GetTodayEntry (stamp t) (now_newday t) (logPrintf LogDayRollover s) of
           (Inl err, s1) \<Rightarrow> logPrintf (LogNewDayError err) s1
         | (Inr q, s1) \<Rightarrow> notifyStateChange (probe_active t) q (s1\<lparr>currentEntry := Some q\<rparr>))
      else s)"

text \<open>
  \<^verbatim>\<open>processMinuteIncrement\<close>: one tick of the tracking loop. With \<^verbatim>\<open>ad.currentEntry\<close> nil
  the first read of \<^verbatim>\<open>ad.currentEntry.IsPaused\<close> panics: the result is \<open>None\<close>.
\<close>

definition processMinuteIncrement :: "ActivityConfig \<Rightarrow> tick \<Rightarrow> process \<Rightarrow> process option" where
  "processMinuteIncrement cfg t s =
     (case currentEntry s of
        None \<Rightarrow> None
      | Some p \<Rightarrow>
          let shouldIncrement = (probe_active t \<and> \<not> IsPaused (heap s p)) in
          if shouldIncrement then
            (case IncrementActiveTimeForDate (stamp t) (now_increment t) (db s) of
               (Some err, db1) \<Rightarrow> Some (logPrintf (LogIncrementError err) (s\<lparr>db := db1\<rparr>))
             | (None, db1) \<Rightarrow>
                 (case GetTodayEntry (stamp t) (now_refresh t) (s\<lparr>db := db1\<rparr>) of
                    (Inl err, s1) \<Rightarrow> Some (logPrintf (LogRefreshError err) s1)
                  | (Inr q, s1) \<Rightarrow>
                      let s2 = logPrintf (LogTimeIncremented (ActiveMinutes (heap s1 q)))
                                 (s1\<lparr>currentEntry := Some q\<rparr>);
                          s3 = (if entry_ShouldAutoLog (cfg_AutoLogThresholdMinutes cfg) (heap s2 q)
                                then logPrintf (LogThresholdReached (ActiveMinutes (heap s2 q))) s2
                                else s2)
                      in Some (rollover t q (notifyStateChange (probe_active t) q s3))))
          else Some (rollover t p s))"

text \<open>The tracking loop over a sequence of ticks; a panic ends it.\<close>

fun trackingLoop :: "ActivityConfig \<Rightarrow> tick list \<Rightarrow> process \<Rightarrow> process option" where
  "trackingLoop cfg [] s = Some s"
| "trackingLoop cfg (t # ts) s =
     (case processMinuteIncrement cfg t s of
        None \<Rightarrow> None
      | Some s1 \<Rightarrow> trackingLoop cfg ts s1)"

section \<open>The auto-logger with a queue (internal/api/autolog.go)\<close>

text \<open>\<^verbatim>\<open>models.APIResponse\<close>. \<open>Data\<close> is \<^verbatim>\<open>interface{}\<close> in the source and is only read through
  the type assertion \<^verbatim>\<open>response.Data.(string)\<close>: \<open>Some d\<close> is a string, \<open>None\<close> any other
  value.\<close>

record APIResponse =
  Success :: bool
  Message :: string
  Data :: "string option"

text \<open>A client behind the interface \<^verbatim>\<open>TimeTrackingAPI\<close>: its \<^verbatim>\<open>Name()\<close> and what its
  \<^verbatim>\<open>CreateTimeEntry\<close> answers, which is the service's business.\<close>

record TimeTrackingAPI =
  Name :: string
  CreateTimeEntry :: "TimeEntry \<Rightarrow> error + APIResponse"

text \<open>The part of \<^verbatim>\<open>models.Config\<close> that the auto-loggers read.\<close>

record ProviderConfig =
  Enabled :: bool
  APIKey :: string
  WorkspaceID :: string
  ProjectID :: string

record APIConfig =
  PreferredProvider :: string
  Magnetic :: ProviderConfig
  Clockify :: ProviderConfig

text \<open>
  \<^verbatim>\<open>AutoLogger\<close>. \<open>apis\<close> is the Go map \<^verbatim>\<open>al.apis\<close> with its keys in the order in which
  \<^verbatim>\<open>range al.apis\<close> visits them; \<open>thresholdHours\<close> is a \<^verbatim>\<open>float64\<close> in the source and a
  real number here. The channel \<^verbatim>\<open>logChan\<close> is made with capacity 100.
\<close>

record AutoLogger =
  al_config :: APIConfig
  apis :: "(string \<times> TimeTrackingAPI) list"
  thresholdHours :: real

definition logChan_capacity :: nat where
  "logChan_capacity = 100"

text \<open>\<^verbatim>\<open>AutoLogger.ShouldAutoLog\<close>.\<close>

definition ShouldAutoLog :: "AutoLogger \<Rightarrow> addr option \<Rightarrow> process \<Rightarrow> bool" where
  "ShouldAutoLog al entry s =
     (case entry of
        None \<Rightarrow> False
      | Some p \<Rightarrow>
          if AutoLogged (heap s p) then False
          else real_of_int (ActiveMinutes (heap s p)) / 60 \<ge> thresholdHours al)"

text \<open>\<^verbatim>\<open>AutoLogger.CheckAndLog\<close>: the \<^verbatim>\<open>select\<close> sends when the channel has room and takes
  the \<^verbatim>\<open>default\<close> branch when it is full.\<close>

definition CheckAndLog :: "AutoLogger \<Rightarrow> addr option \<Rightarrow> process \<Rightarrow> process" where
  "CheckAndLog al entry s =
     (if \<not> ShouldAutoLog al entry s then s
      else
        (case entry of
           None \<Rightarrow> s
         | Some p \<Rightarrow>
             if length (logChan s) < logChan_capacity
             then logPrintf (LogQueued (Date (heap s p)))
                    (s\<lparr>logChan := logChan s @
                         [\<lparr>Entry = Some p,
                           Description = ''Timeclip auto-log for '' @ Date (heap s p),
                           Force = False\<rparr>]\<rparr>)
             else logPrintf (LogQueueFull (Date (heap s p))) s))"

text \<open>\<^verbatim>\<open>AutoLogger.ForceLog\<close>; the entry is dereferenced, so a nil entry panics (\<open>None\<close>).\<close>

definition ForceLog :: "addr option \<Rightarrow> string \<Rightarrow> process \<Rightarrow> process option" where
  "ForceLog entry description s =
     (case entry of
        None \<Rightarrow> None
      | Some p \<Rightarrow>
          let description1 = (if description = [] then ''Manual log for '' @ Date (heap s p)
                              else description) in
          if length (logChan s) < logChan_capacity
          then Some (logPrintf (LogQueuedManual (Date (heap s p)))
                 (s\<lparr>logChan := logChan s @
                      [\<lparr>Entry = Some p, Description = description1, Force = True\<rparr>]\<rparr>))
          else Some (logPrintf (LogQueueFullManual (Date (heap s p))) s))"

text \<open>\<^verbatim>\<open>NewTimeEntry\<close>.\<close>

definition NewTimeEntry :: "DailyTimeEntry \<Rightarrow> string \<Rightarrow> TimeEntry" where
  "NewTimeEntry dailyEntry description =
     \<lparr>te_Date = Date dailyEntry,
      te_Hours = real_of_int (ActiveMinutes dailyEntry) / 60,
      te_Minutes = ActiveMinutes dailyEntry,
      te_Description = description,
      te_ProjectID = [], te_WorkspaceID = [], te_Tags = []\<rparr>"

text \<open>\<^verbatim>\<open>addAPISpecificIDs\<close>.\<close>

definition addAPISpecificIDs :: "APIConfig \<Rightarrow> TimeTrackingAPI \<Rightarrow> TimeEntry \<Rightarrow> TimeEntry" where
  "addAPISpecificIDs cfg api te =
     (if Name api = ''Magnetic'' then
        (let te1 = (if te_WorkspaceID te = [] then te\<lparr>te_WorkspaceID := WorkspaceID (Magnetic cfg)\<rparr>
                    else te)
         in if te_ProjectID te1 = [] then te1\<lparr>te_ProjectID := ProjectID (Magnetic cfg)\<rparr> else te1)
      else if Name api = ''Clockify'' then
        (let te1 = (if te_WorkspaceID te = [] then te\<lparr>te_WorkspaceID := WorkspaceID (Clockify cfg)\<rparr>
                    else te)
         in if te_ProjectID te1 = [] then te1\<lparr>te_ProjectID := ProjectID (Clockify cfg)\<rparr> else te1)
      else te)"

text \<open>\<^verbatim>\<open>logToAPI\<close>. The time entry is passed by pointer and may be changed, so it is
  returned; the call of the service is recorded in \<open>api_calls\<close>.\<close>

definition logToAPI ::
  "AutoLogger \<Rightarrow> TimeTrackingAPI \<Rightarrow> TimeEntry \<Rightarrow> process \<Rightarrow> (error + APIResponse) \<times> TimeEntry \<times> process"
where
  "logToAPI al api timeEntry s =
     (let te1 = (if te_WorkspaceID timeEntry = [] \<or> te_ProjectID timeEntry = []
                 then addAPISpecificIDs (al_config al) api timeEntry else timeEntry);
          s1 = s\<lparr>api_calls := api_calls s @ [(Name api, te1)]\<rparr>
      in (case CreateTimeEntry api te1 of
            Inl err \<Rightarrow> (Inl (Errorf (Name api @ '' API error'') (Some err)), te1, s1)
          | Inr response \<Rightarrow>
              if \<not> Success response
              then (Inl (Errorf (Name api @ '' API returned error: '' @ Message response) None),
                    te1, s1)
              else (Inr response, te1, s1)))"

text \<open>\<^verbatim>\<open>AutoLogger.markAsLogged\<close>; \<open>ts\<close> is \<^verbatim>\<open>CURRENT_TIMESTAMP\<close>.\<close>

definition markAsLogged :: "nat \<Rightarrow> DailyTimeEntry \<Rightarrow> APIResponse \<Rightarrow> process \<Rightarrow> error option \<times> process" where
  "markAsLogged ts entry response s =
     (let responseData = (case Data response of Some d \<Rightarrow> d | None \<Rightarrow> Message response)
      in (case MarkAsAutoLogged ts (Date entry) responseData (db s) of
            (err, db1) \<Rightarrow> (err, s\<lparr>db := db1\<rparr>)))"

text \<open>The loop \<^verbatim>\<open>for name, api := range al.apis\<close> of \<^verbatim>\<open>processLogRequest\<close>, over the
  entries that are still to visit.\<close>

fun fallback_loop ::
  "AutoLogger \<Rightarrow> nat \<Rightarrow> (string \<times> TimeTrackingAPI) list \<Rightarrow> DailyTimeEntry \<Rightarrow> TimeEntry \<Rightarrow> process \<Rightarrow> process"
where
  "fallback_loop al ts [] entry timeEntry s = logPrintf (LogFailedAny (Date entry)) s"
| "fallback_loop al ts ((name, api) # rest) entry timeEntry s =
     (if name = PreferredProvider (al_config al) then fallback_loop al ts rest entry timeEntry s
      else
        (case logToAPI al api timeEntry s of
           (Inr response, te1, s1) \<Rightarrow>
             (case markAsLogged ts entry response s1 of
                (Some err, s2) \<Rightarrow> logPrintf (LogMarkError err) s2
              | (None, s2) \<Rightarrow> logPrintf (LogSuccessFallback (Date entry) name) s2)
         | (Inl err, te1, s1) \<Rightarrow>
             fallback_loop al ts rest entry te1 (logPrintf (LogFailed name err) s1)))"

text \<open>\<^verbatim>\<open>processLogRequest\<close>: what the worker does with one request taken from the channel.\<close>

definition processLogRequest :: "AutoLogger \<Rightarrow> nat \<Rightarrow> LogRequest option \<Rightarrow> process \<Rightarrow> process" where
  "processLogRequest al ts request s =
     (case request of
        None \<Rightarrow> s
      | Some req \<Rightarrow>
          (case Entry req of
             None \<Rightarrow> s
           | Some p \<Rightarrow>
               let entry = heap s p in
               if \<not> Force req \<and> (AutoLogged entry \<or> \<not> ShouldAutoLog al (Some p) s) then s
               else
                 let s1 = logPrintf (LogProcessing (Date entry)) s;
                     timeEntry = NewTimeEntry entry (Description req);
                     preferredAPI = PreferredProvider (al_config al)
                 in (case map_of (apis al) preferredAPI of
                       Some api \<Rightarrow>
                         (case logToAPI al api timeEntry s1 of
                            (Inr response, te1, s2) \<Rightarrow>
                              (case markAsLogged ts entry response s2 of
                                 (Some err, s3) \<Rightarrow> logPrintf (LogMarkError err) s3
                               | (None, s3) \<Rightarrow> logPrintf (LogSuccess (Date entry) preferredAPI) s3)
                          | (Inl err, te1, s2) \<Rightarrow>
                              fallback_loop al ts (apis al) entry te1
                                (logPrintf (LogPreferredFailed preferredAPI err) s2))
                     | None \<Rightarrow> fallback_loop al ts (apis al) entry timeEntry s1)))"

text \<open>One round of \<^verbatim>\<open>processLoop\<close>: the worker takes the oldest request of the channel.\<close>

definition processLoop_step :: "AutoLogger \<Rightarrow> nat \<Rightarrow> process \<Rightarrow> process" where
  "processLoop_step al ts s =
     (case logChan s of
        [] \<Rightarrow> s
      | req # rest \<Rightarrow> processLogRequest al ts (Some req) (s\<lparr>logChan := rest\<rparr>))"

section \<open>The auto-logger without a queue (SimpleAutoLogger, internal/api/interface.go)\<close>

text \<open>\<^verbatim>\<open>SimpleAutoLogger\<close>. It builds a client for every attempt; what
  \<^verbatim>\<open>magnetic.NewClient\<close> and \<^verbatim>\<open>clockify.NewClient\<close> return is the business of those
  packages.\<close>

record SimpleAutoLogger =
  sal_config :: APIConfig
  magnetic_NewClient :: "error + TimeTrackingAPI"
  clockify_NewClient :: "error + TimeTrackingAPI"

text \<open>\<^verbatim>\<open>logToMagnetic\<close> and \<^verbatim>\<open>logToClockify\<close>.\<close>

definition logToMagnetic ::
  "SimpleAutoLogger \<Rightarrow> DailyTimeEntry \<Rightarrow> string \<Rightarrow> process \<Rightarrow> error option \<times> process"
where
  "logToMagnetic sal entry description s =
     (case magnetic_NewClient sal of
        Inl err \<Rightarrow> (Some (Errorf ''failed to create Magnetic client'' (Some err)), s)
      | Inr client \<Rightarrow>
          let timeEntry =
                \<lparr>te_Date = Date entry,
                 te_Hours = real_of_int (ActiveMinutes entry) / 60,
                 te_Minutes = ActiveMinutes entry,
                 te_Description = description,
                 te_ProjectID = ProjectID (Magnetic (sal_config sal)),
                 te_WorkspaceID = WorkspaceID (Magnetic (sal_config sal)),
                 te_Tags = []\<rparr>;
              s1 = s\<lparr>api_calls := api_calls s @ [(''Magnetic'', timeEntry)]\<rparr>
          in (case CreateTimeEntry client timeEntry of
                Inl err \<Rightarrow> (Some (Errorf ''failed to create time entry'' (Some err)), s1)
              | Inr response \<Rightarrow>
                  if \<not> Success response
                  then (Some (Errorf (''API returned error: '' @ Message response) None), s1)
                  else (None, s1)))"

definition logToClockify ::
  "SimpleAutoLogger \<Rightarrow> DailyTimeEntry \<Rightarrow> string \<Rightarrow> process \<Rightarrow> error option \<times> process"
where
  "logToClockify sal entry description s =
     (case clockify_NewClient sal of
        Inl err \<Rightarrow> (Some (Errorf ''failed to create Clockify client'' (Some err)), s)
      | Inr client \<Rightarrow>
          let timeEntry =
                \<lparr>te_Date = Date entry,
                 te_Hours = real_of_int (ActiveMinutes entry) / 60,
                 te_Minutes = ActiveMinutes entry,
                 te_Description = description,
                 te_ProjectID = ProjectID (Clockify (sal_config sal)),
                 te_WorkspaceID = WorkspaceID (Clockify (sal_config sal)),
                 te_Tags = []\<rparr>;
              s1 = s\<lparr>api_calls := api_calls s @ [(''Clockify'', timeEntry)]\<rparr>
          in (case CreateTimeEntry client timeEntry of
                Inl err \<Rightarrow> (Some (Errorf ''failed to create time entry'' (Some err)), s1)
              | Inr response \<Rightarrow>
                  if \<not> Success response
                  then (Some (Errorf (''API returned error: '' @ Message response) None), s1)
                  else (None, s1)))"

text \<open>\<^verbatim>\<open>SimpleAutoLogger.markAsLogged\<close>: an error of the database is logged and dropped.\<close>

definition sal_markAsLogged :: "nat \<Rightarrow> DailyTimeEntry \<Rightarrow> string \<Rightarrow> process \<Rightarrow> process" where
  "sal_markAsLogged ts entry response s =
     (case MarkAsAutoLogged ts (Date entry) response (db s) of
        (Some err, db1) \<Rightarrow> logPrintf (LogMarkError err) (s\<lparr>db := db1\<rparr>)
      | (None, db1) \<Rightarrow> s\<lparr>db := db1\<rparr>)"

text \<open>The \<^verbatim>\<open>switch preferredProvider\<close> of \<^verbatim>\<open>logEntry\<close>: \<open>True\<close> when it has returned
  \<^verbatim>\<open>nil\<close>.\<close>

definition try_preferred ::
  "SimpleAutoLogger \<Rightarrow> nat \<Rightarrow> DailyTimeEntry \<Rightarrow> string \<Rightarrow> process \<Rightarrow> bool \<times> process"
where
  "try_preferred sal ts entry description s =
     (let cfg = sal_config sal in
      if PreferredProvider cfg = ''magnetic'' then
        (if Enabled (Magnetic cfg) \<and> APIKey (Magnetic cfg) \<noteq> [] then
           (case logToMagnetic sal entry description s of
              (None, s1) \<Rightarrow>
                (True, logPrintf (LogSimpleSuccess (Date entry) ''Magnetic'')
                         (sal_markAsLogged ts entry
                            (''Successfully logged to Magnetic: '' @ description) s1))
            | (Some err, s1) \<Rightarrow> (False, logPrintf (LogSimpleFailed ''Magnetic'' err) s1))
         else (False, s))
      else if PreferredProvider cfg = ''clockify'' then
        (if Enabled (Clockify cfg) \<and> APIKey (Clockify cfg) \<noteq> [] then
           (case logToClockify sal entry description s of
              (None, s1) \<Rightarrow>
                (True, logPrintf (LogSimpleSuccess (Date entry) ''Clockify'')
                         (sal_markAsLogged ts entry
                            (''Successfully logged to Clockify: '' @ description) s1))
            | (Some err, s1) \<Rightarrow> (False, logPrintf (LogSimpleFailed ''Clockify'' err) s1))
         else (False, s))
      else (False, s))"

text \<open>The two fallback attempts of \<^verbatim>\<open>logEntry\<close>, in the order of the source.\<close>

definition try_magnetic_fallback ::
  "SimpleAutoLogger \<Rightarrow> nat \<Rightarrow> DailyTimeEntry \<Rightarrow> string \<Rightarrow> process \<Rightarrow> bool \<times> process"
where
  "try_magnetic_fallback sal ts entry description s =
     (let cfg = sal_config sal in
      if PreferredProvider cfg \<noteq> ''magnetic'' \<and> Enabled (Magnetic cfg) \<and> APIKey (Magnetic cfg) \<noteq> []
      then
        (case logToMagnetic sal entry description s of
           (None, s1) \<Rightarrow>
             (True, logPrintf (LogSimpleSuccessFallback (Date entry) ''Magnetic'')
                      (sal_markAsLogged ts entry
                         (''Successfully logged to Magnetic (fallback): '' @ description) s1))
         | (Some err, s1) \<Rightarrow> (False, s1))
      else (False, s))"

definition try_clockify_fallback ::
  "SimpleAutoLogger \<Rightarrow> nat \<Rightarrow> DailyTimeEntry \<Rightarrow> string \<Rightarrow> process \<Rightarrow> bool \<times> process"
where
  "try_clockify_fallback sal ts entry description s =
     (let cfg = sal_config sal in
      if PreferredProvider cfg \<noteq> ''clockify'' \<and> Enabled (Clockify cfg) \<and> APIKey (Clockify cfg) \<noteq> []
      then
        (case logToClockify sal entry description s of
           (None, s1) \<Rightarrow>
             (True, logPrintf (LogSimpleSuccessFallback (Date entry) ''Clockify'')
                      (sal_markAsLogged ts entry
                         (''Successfully logged to Clockify (fallback): '' @ description) s1))
         | (Some err, s1) \<Rightarrow> (False, s1))
      else (False, s))"

text \<open>\<^verbatim>\<open>SimpleAutoLogger.logEntry\<close>.\<close>

definition logEntry :: "SimpleAutoLogger \<Rightarrow> nat \<Rightarrow> addr \<Rightarrow> process \<Rightarrow> error option \<times> process" where
  "logEntry sal ts p s =
     (let entry = heap s p;
          s0 = logPrintf (LogAutoLogging (Date entry)) s;
          description = ''Timeclip auto-log for '' @ Date entry
      in (case try_preferred sal ts entry description s0 of
            (True, s1) \<Rightarrow> (None, s1)
          | (False, s1) \<Rightarrow>
              (case try_magnetic_fallback sal ts entry description s1 of
                 (True, s2) \<Rightarrow> (None, s2)
               | (False, s2) \<Rightarrow>
                   (case try_clockify_fallback sal ts entry description s2 of
                      (True, s3) \<Rightarrow> (None, s3)
                    | (False, s3) \<Rightarrow>
                        (Some (Errorf ''failed to log to any available API'' None),
                         logPrintf (LogSimpleFailedAny (Date entry)) s3)))))"

section \<open>What the properties observe\<close>

text \<open>The record of a date in the table \<^verbatim>\<open>daily_time\<close>, and three of its columns; a date
  without a record has accrued nothing, is not paused and is not submitted.\<close>

definition entry_of :: "string \<Rightarrow> DB \<Rightarrow> DailyTimeEntry option" where
  "entry_of d c = find (\<lambda>r. Date r = d) (daily_time c)"

definition minutes_of :: "string \<Rightarrow> DB \<Rightarrow> int" where
  "minutes_of d c = (case entry_of d c of None \<Rightarrow> 0 | Some r \<Rightarrow> ActiveMinutes r)"

definition paused_of :: "string \<Rightarrow> DB \<Rightarrow> bool" where
  "paused_of d c = (case entry_of d c of None \<Rightarrow> False | Some r \<Rightarrow> IsPaused r)"

definition submitted :: "string \<Rightarrow> DB \<Rightarrow> bool" where
  "submitted d c = (case entry_of d c of None \<Rightarrow> False | Some r \<Rightarrow> AutoLogged r)"

text \<open>The persisted state: both tables and their AUTOINCREMENT counters.\<close>

definition persisted :: "DB \<Rightarrow> DailyTimeEntry list \<times> SystemEvent list \<times> int \<times> int" where
  "persisted c = (daily_time c, system_events c, daily_time_seq c, system_events_seq c)"

text \<open>The row that \<^verbatim>\<open>createEntryForDate\<close> inserts.\<close>

definition fresh_row :: "nat \<Rightarrow> string \<Rightarrow> int \<Rightarrow> DailyTimeEntry" where
  "fresh_row ts date i =
     \<lparr>ID = i, Date = date, ActiveMinutes = 0, GoalMinutes = 480, IsPaused = False,
      AutoLogged = False, AutoLogResponse = [], CreatedAt = ts, UpdatedAt = ts\<rparr>"

text \<open>What the schema guarantees of the table \<^verbatim>\<open>daily_time\<close>: \<^verbatim>\<open>date\<close> is UNIQUE, and no
  \<^verbatim>\<open>id\<close> is above the AUTOINCREMENT counter.\<close>

definition wf_db :: "DB \<Rightarrow> bool" where
  "wf_db c =
     (distinct (map Date (daily_time c)) \<and>
      list_all (\<lambda>r. ID r \<le> daily_time_seq c) (daily_time c))"

text \<open>A caller or an observer that assigns to the entry it holds the pointer \<open>p\<close> to.\<close>

definition assign_through :: "addr \<Rightarrow> (DailyTimeEntry \<Rightarrow> DailyTimeEntry) \<Rightarrow> process \<Rightarrow> process" where
  "assign_through p f s = s\<lparr>heap := (heap s)(p := f (heap s p))\<rparr>"

text \<open>The operations of the engine, to speak of any sequence of them; a panic
  (\<open>None\<close>) ends the sequence.\<close>

datatype engine_call =
    CallStart ActivityConfig nat string
  | CallTick ActivityConfig tick
  | CallTogglePause nat string bool
  | CallSetPause nat string bool bool
  | CallGetCurrentEntry
  | CallAddStateChangeCallback callback
  | CallCheckAndLog AutoLogger "addr option"
  | CallForceLog "addr option" string
  | CallWorker AutoLogger nat
  | CallLogEntry SimpleAutoLogger nat addr
  | CallSchedule
  | CallAssign addr "DailyTimeEntry \<Rightarrow> DailyTimeEntry"

fun perform :: "engine_call \<Rightarrow> process \<Rightarrow> process option" where
  "perform (CallStart cfg ts today) s = Some (snd (Start cfg ts today s))"
| "perform (CallTick cfg t) s = processMinuteIncrement cfg t s"
| "perform (CallTogglePause ts today active) s = Some (snd (TogglePause ts today active s))"
| "perform (CallSetPause ts today active paused) s = Some (snd (SetPause ts today active paused s))"
| "perform CallGetCurrentEntry s = Some (snd (GetCurrentEntry s))"
| "perform (CallAddStateChangeCallback cb) s = Some (AddStateChangeCallback cb s)"
| "perform (CallCheckAndLog al entry) s = Some (CheckAndLog al entry s)"
| "perform (CallForceLog entry description) s = ForceLog entry description s"
| "perform (CallWorker al ts) s = Some (processLoop_step al ts s)"
| "perform (CallLogEntry sal ts p) s = Some (snd (logEntry sal ts p s))"
| "perform CallSchedule s = Some (schedule s)"
| "perform (CallAssign p f) s = Some (assign_through p f s)"

fun perform_all :: "engine_call list \<Rightarrow> process \<Rightarrow> process option" where
  "perform_all [] s = Some s"
| "perform_all (c # cs) s =
     (case perform c s of None \<Rightarrow> None | Some s1 \<Rightarrow> perform_all cs s1)"

section \<open>Proofs\<close>

subsection \<open>Driver calls and single statements\<close>

lemma driver_call_tables:
  "driver_call c = (f, c1) \<Longrightarrow>
     daily_time c1 = daily_time c \<and> system_events c1 = system_events c \<and>
     daily_time_seq c1 = daily_time_seq c \<and> system_events_seq c1 = system_events_seq c"
  by (auto simp: driver_call_def split: list.splits)

lemma driver_call_nofault:
  "faults c = [] \<Longrightarrow> driver_call c = (False, c)"
  by (simp add: driver_call_def)

lemma select_by_date_tables:
  "select_by_date date c = (res, c1) \<Longrightarrow>
     daily_time c1 = daily_time c \<and> system_events c1 = system_events c \<and>
     daily_time_seq c1 = daily_time_seq c \<and> system_events_seq c1 = system_events_seq c"
  by (auto simp: select_by_date_def split: prod.splits bool.splits option.splits dest: driver_call_tables)

lemma select_by_date_res:
  "select_by_date date c = (Inr e, c1) \<Longrightarrow> entry_of date c = Some e"
  "select_by_date date c = (Inl ErrNoRows, c1) \<Longrightarrow> entry_of date c = None"
  by (auto simp: select_by_date_def entry_of_def split: prod.splits bool.splits option.splits dest: driver_call_tables)

lemma select_by_id_tables:
  "select_by_id i c = (res, c1) \<Longrightarrow>
     daily_time c1 = daily_time c \<and> system_events c1 = system_events c \<and>
     daily_time_seq c1 = daily_time_seq c \<and> system_events_seq c1 = system_events_seq c"
  by (auto simp: select_by_id_def split: prod.splits bool.splits option.splits dest: driver_call_tables)

lemma select_by_id_res:
  "select_by_id i c = (Inr e, c1) \<Longrightarrow> find (\<lambda>r. ID r = i) (daily_time c) = Some e"
  by (auto simp: select_by_id_def split: prod.splits bool.splits option.splits dest: driver_call_tables)

lemma GetEntryByID_tables:
  "GetEntryByID i c = (res, c1) \<Longrightarrow>
     daily_time c1 = daily_time c \<and> system_events c1 = system_events c \<and>
     daily_time_seq c1 = daily_time_seq c \<and> system_events_seq c1 = system_events_seq c"
  by (auto simp: GetEntryByID_def split: prod.splits sum.splits dest: select_by_id_tables)

lemma GetEntryByID_res:
  "GetEntryByID i c = (Inr e, c1) \<Longrightarrow> find (\<lambda>r. ID r = i) (daily_time c) = Some e"
  by (auto simp: GetEntryByID_def split: prod.splits sum.splits dest: select_by_id_res)

lemma insert_daily_time_tables:
  "insert_daily_time ts date c = (res, c1) \<Longrightarrow>
     system_events c1 = system_events c \<and> system_events_seq c1 = system_events_seq c \<and>
     ((daily_time c1 = daily_time c \<and> daily_time_seq c1 = daily_time_seq c \<and> (\<exists>e. res = Inl e)) \<or>
      (date \<notin> set (map Date (daily_time c)) \<and> res = Inr (daily_time_seq c + 1) \<and>
       daily_time c1 = daily_time c @ [fresh_row ts date (daily_time_seq c + 1)] \<and>
       daily_time_seq c1 = daily_time_seq c + 1))"
  by (auto simp: insert_daily_time_def fresh_row_def Let_def split: prod.splits bool.splits if_splits dest: driver_call_tables)

lemma update_daily_time_tables:
  "update_daily_time cond upd c = (res, c1) \<Longrightarrow>
     system_events c1 = system_events c \<and> system_events_seq c1 = system_events_seq c \<and>
     daily_time_seq c1 = daily_time_seq c \<and>
     ((daily_time c1 = daily_time c \<and> (\<exists>e. res = Inl e)) \<or>
      (res = Inr (length (filter cond (daily_time c))) \<and>
       daily_time c1 = map (\<lambda>r. if cond r then upd r else r) (daily_time c)))"
  by (auto simp: update_daily_time_def split: prod.splits bool.splits dest: driver_call_tables)

lemma LogSystemEvent_tables:
  "LogSystemEvent ts ty details c = (res, c1) \<Longrightarrow>
     daily_time c1 = daily_time c \<and> daily_time_seq c1 = daily_time_seq c \<and>
     ((res \<noteq> None \<and> system_events c1 = system_events c \<and> system_events_seq c1 = system_events_seq c) \<or>
      (res = None \<and>
       system_events c1 = system_events c @
         [\<lparr>EventID = system_events_seq c + 1, EventType = ty, Timestamp = ts, Details = details\<rparr>] \<and>
       system_events_seq c1 = system_events_seq c + 1))"
  by (auto simp: LogSystemEvent_def Let_def split: prod.splits bool.splits dest: driver_call_tables)

lemma LogSystemEvent_daily:
  "daily_time (snd (LogSystemEvent ts ty details c)) = daily_time c"
  "daily_time_seq (snd (LogSystemEvent ts ty details c)) = daily_time_seq c"
  using LogSystemEvent_tables[of ts ty details c] by (auto simp: prod_eq_iff)

subsection \<open>Get or create\<close>

lemma createEntryForDate_tables:
  "createEntryForDate ts date c = (res, c1) \<Longrightarrow>
     system_events c1 = system_events c \<and> system_events_seq c1 = system_events_seq c \<and>
     ((daily_time c1 = daily_time c \<and> daily_time_seq c1 = daily_time_seq c \<and> (\<exists>e. res = Inl e)) \<or>
      (date \<notin> set (map Date (daily_time c)) \<and>
       daily_time c1 = daily_time c @ [fresh_row ts date (daily_time_seq c + 1)] \<and>
       daily_time_seq c1 = daily_time_seq c + 1))"
  apply (simp add: createEntryForDate_def split: prod.splits sum.splits bool.splits)
  apply (auto dest!: insert_daily_time_tables driver_call_tables GetEntryByID_tables)
  done

lemma GetEntryForDate_tables:
  "GetEntryForDate ts date c = (res, c1) \<Longrightarrow>
     system_events c1 = system_events c \<and> system_events_seq c1 = system_events_seq c \<and>
     ((daily_time c1 = daily_time c \<and> daily_time_seq c1 = daily_time_seq c) \<or>
      (date \<notin> set (map Date (daily_time c)) \<and>
       daily_time c1 = daily_time c @ [fresh_row ts date (daily_time_seq c + 1)] \<and>
       daily_time_seq c1 = daily_time_seq c + 1))"
  apply (simp add: GetEntryForDate_def split: prod.splits sum.splits if_splits)
  apply (auto dest!: select_by_date_tables createEntryForDate_tables)
  done

lemma find_date_append_fresh:
  "date \<notin> set (map Date rows) \<Longrightarrow>
     find (\<lambda>r. Date r = d) (rows @ [fresh_row ts date i]) =
       (if d = date then Some (fresh_row ts date i) else find (\<lambda>r. Date r = d) rows)"
  by (induction rows) (auto simp: fresh_row_def)

lemma find_date_map:
  "(\<And>r. Date (g r) = Date r) \<Longrightarrow>
     find (\<lambda>r. Date r = d) (map g rows) = map_option g (find (\<lambda>r. Date r = d) rows)"
  by (induction rows) auto

lemma find_id_append_fresh:
  "list_all (\<lambda>r. ID r \<le> n) rows \<Longrightarrow>
     find (\<lambda>r. ID r = n + 1) (rows @ [fresh_row ts date (n + 1)]) = Some (fresh_row ts date (n + 1))"
  by (induction rows) (auto simp: fresh_row_def)

lemma wf_db_append_fresh:
  "wf_db c \<Longrightarrow> date \<notin> set (map Date (daily_time c)) \<Longrightarrow>
   daily_time c1 = daily_time c @ [fresh_row ts date (daily_time_seq c + 1)] \<Longrightarrow>
   daily_time_seq c1 = daily_time_seq c + 1 \<Longrightarrow> wf_db c1"
  by (auto simp: wf_db_def fresh_row_def list_all_iff)

lemma wf_db_same:
  "wf_db c \<Longrightarrow> daily_time c1 = daily_time c \<Longrightarrow> daily_time_seq c1 = daily_time_seq c \<Longrightarrow> wf_db c1"
  by (simp add: wf_db_def)

lemma wf_db_map:
  "wf_db c \<Longrightarrow> (\<And>r. Date (g r) = Date r) \<Longrightarrow> (\<And>r. ID (g r) = ID r) \<Longrightarrow>
   daily_time c1 = map g (daily_time c) \<Longrightarrow> daily_time_seq c1 = daily_time_seq c \<Longrightarrow> wf_db c1"
  by (auto simp: wf_db_def list_all_iff comp_def)

lemma GetEntryForDate_wf:
  "GetEntryForDate ts date c = (res, c1) \<Longrightarrow> wf_db c \<Longrightarrow> wf_db c1"
  by (auto dest!: GetEntryForDate_tables intro: wf_db_same wf_db_append_fresh)

lemma GetEntryForDate_entry_of:
  "GetEntryForDate ts date c = (res, c1) \<Longrightarrow>
     (\<forall>d. entry_of d c1 = entry_of d c) \<or>
     (entry_of date c = None \<and>
      (\<forall>d. entry_of d c1 =
         (if d = date then Some (fresh_row ts date (daily_time_seq c + 1)) else entry_of d c)))"
  apply (drule GetEntryForDate_tables)
  apply (elim conjE disjE)
   apply (simp add: entry_of_def)
  apply (rule disjI2)
  apply (simp add: entry_of_def find_date_append_fresh)
  apply (auto simp: find_None_iff)
  done

lemma GetEntryForDate_other:
  "GetEntryForDate ts date c = (res, c1) \<Longrightarrow> d \<noteq> date \<Longrightarrow> entry_of d c1 = entry_of d c"
  by (drule GetEntryForDate_entry_of) auto

lemma GetEntryForDate_keeps:
  "GetEntryForDate ts date c = (res, c1) \<Longrightarrow> entry_of d c = Some r \<Longrightarrow> entry_of d c1 = Some r"
  by (drule GetEntryForDate_entry_of) auto

lemma GetEntryForDate_entry_of_at:
  assumes "GetEntryForDate ts date c = (res, c1)"
  shows "entry_of d c1 = entry_of d c \<or>
         (d = date \<and> entry_of d c = None \<and>
          entry_of d c1 = Some (fresh_row ts date (daily_time_seq c + 1)))"
proof -
  from GetEntryForDate_entry_of[OF assms] show ?thesis
  proof
    assume "\<forall>d. entry_of d c1 = entry_of d c"
    then show ?thesis by simp
  next
    assume a: "entry_of date c = None \<and>
      (\<forall>d. entry_of d c1 =
         (if d = date then Some (fresh_row ts date (daily_time_seq c + 1)) else entry_of d c))"
    then have "entry_of d c1 =
         (if d = date then Some (fresh_row ts date (daily_time_seq c + 1)) else entry_of d c)"
      by blast
    with a show ?thesis by (cases "d = date") simp_all
  qed
qed

lemma GetEntryForDate_obs:
  assumes "GetEntryForDate ts date c = (res, c1)"
  shows "minutes_of d c1 = minutes_of d c" and "paused_of d c1 = paused_of d c"
    and "submitted d c1 = submitted d c"
  using GetEntryForDate_entry_of_at[OF assms, of d]
  by (auto simp: minutes_of_def paused_of_def submitted_def fresh_row_def)

lemma GetEntryForDate_result:
  assumes "GetEntryForDate ts date c = (Inr e, c1)" and "wf_db c"
  shows "entry_of date c1 = Some e \<and> Date e = date"
proof (cases "select_by_date date c")
  case (Pair r c0)
  note sel = Pair
  show ?thesis
  proof (cases r)
    case (Inr e0)
    with sel assms(1) have "e0 = e" "c1 = c0" by (auto simp: GetEntryForDate_def)
    with sel Inr have "entry_of date c = Some e" by (auto dest: select_by_date_res)
    moreover from this have "Date e = date" by (auto simp: entry_of_def dest: find_Some_iff[THEN iffD1])
    ultimately show ?thesis using GetEntryForDate_keeps[OF assms(1)] by simp
  next
    case (Inl err)
    with sel assms(1) have norows: "err = ErrNoRows" and cr: "createEntryForDate ts date c0 = (Inr e, c1)"
      by (auto simp: GetEntryForDate_def split: if_splits)
    from sel have t0: "daily_time c0 = daily_time c" "daily_time_seq c0 = daily_time_seq c"
      by (auto dest: select_by_date_tables)
    from cr obtain i c2 c3 where ins: "insert_daily_time ts date c0 = (Inr i, c2)"
      and dc: "driver_call c2 = (False, c3)" and g: "GetEntryByID i c3 = (Inr e, c1)"
      by (auto simp: createEntryForDate_def split: prod.splits sum.splits bool.splits)
    from insert_daily_time_tables[OF ins] have
      i: "i = daily_time_seq c0 + 1" and nd: "date \<notin> set (map Date (daily_time c0))"
      and rows2: "daily_time c2 = daily_time c0 @ [fresh_row ts date (daily_time_seq c0 + 1)]"
      by auto
    from dc have rows3: "daily_time c3 = daily_time c2" by (auto dest: driver_call_tables)
    from g have rows1: "daily_time c1 = daily_time c3" by (auto dest: GetEntryByID_tables)
    from assms(2) t0 have "list_all (\<lambda>r. ID r \<le> daily_time_seq c0) (daily_time c0)"
      by (simp add: wf_db_def)
    from find_id_append_fresh[OF this] GetEntryByID_res[OF g] i rows2 rows3
    have e: "e = fresh_row ts date (daily_time_seq c0 + 1)" by simp
    have "entry_of date c1 = Some e"
      using nd rows1 rows2 rows3 e by (simp add: entry_of_def find_date_append_fresh)
    moreover have "Date e = date" using e by (simp add: fresh_row_def)
    ultimately show ?thesis by simp
  qed
qed

lemma select_by_date_nofault:
  "faults c = [] \<Longrightarrow>
     select_by_date date c =
       (case entry_of date c of None \<Rightarrow> (Inl ErrNoRows, c) | Some r \<Rightarrow> (Inr r, c))"
  by (simp add: select_by_date_def driver_call_nofault entry_of_def)

lemma createEntryForDate_nofault:
  assumes "faults c = []" and "wf_db c" and "entry_of date c = None"
  shows "createEntryForDate ts date c =
           (Inr (fresh_row ts date (daily_time_seq c + 1)),
            c\<lparr>daily_time := daily_time c @ [fresh_row ts date (daily_time_seq c + 1)],
              daily_time_seq := daily_time_seq c + 1\<rparr>)"
proof -
  from assms(3) have nd: "date \<notin> set (map Date (daily_time c))"
    by (auto simp: entry_of_def find_None_iff)
  let ?c1 = "c\<lparr>daily_time := daily_time c @ [fresh_row ts date (daily_time_seq c + 1)],
              daily_time_seq := daily_time_seq c + 1\<rparr>"
  have ins: "insert_daily_time ts date c = (Inr (daily_time_seq c + 1), ?c1)"
    using nd assms(1) by (simp add: insert_daily_time_def driver_call_nofault fresh_row_def Let_def)
  have f1: "faults ?c1 = []" using assms(1) by simp
  from assms(2) have "list_all (\<lambda>r. ID r \<le> daily_time_seq c) (daily_time c)"
    by (simp add: wf_db_def)
  from find_id_append_fresh[OF this]
  have "GetEntryByID (daily_time_seq c + 1) ?c1 = (Inr (fresh_row ts date (daily_time_seq c + 1)), ?c1)"
    by (simp add: GetEntryByID_def select_by_id_def driver_call_nofault[OF f1])
  then show ?thesis
    by (simp add: createEntryForDate_def ins driver_call_nofault[OF f1])
qed

lemma GetEntryForDate_nofault:
  assumes "faults c = []" and "wf_db c"
  shows "GetEntryForDate ts date c =
           (case entry_of date c of
              Some r \<Rightarrow> (Inr r, c)
            | None \<Rightarrow>
                (Inr (fresh_row ts date (daily_time_seq c + 1)),
                 c\<lparr>daily_time := daily_time c @ [fresh_row ts date (daily_time_seq c + 1)],
                   daily_time_seq := daily_time_seq c + 1\<rparr>))"
  using assms
  by (simp add: GetEntryForDate_def select_by_date_nofault createEntryForDate_nofault
        split: option.splits)

lemma GetEntryForDate_nofault_ex:
  assumes "faults c = []" and "wf_db c"
  shows "\<exists>e c1. GetEntryForDate ts date c = (Inr e, c1) \<and> faults c1 = []"
  using assms by (simp add: GetEntryForDate_nofault split: option.splits)

lemma update_daily_time_entry_of:
  assumes "update_daily_time cond upd c = (res, c1)" and "\<And>r. Date (upd r) = Date r"
  shows "(res \<noteq> Inr (length (filter cond (daily_time c))) \<and> entry_of d c1 = entry_of d c) \<or>
         (res = Inr (length (filter cond (daily_time c))) \<and>
          entry_of d c1 = map_option (\<lambda>r. if cond r then upd r else r) (entry_of d c))"
proof -
  have g: "\<And>r. Date (if cond r then upd r else r) = Date r" using assms(2) by simp
  from update_daily_time_tables[OF assms(1)] show ?thesis
    unfolding entry_of_def using find_date_map[of "\<lambda>r. if cond r then upd r else r" d, OF g]
    by auto
qed

lemma update_daily_time_wf:
  assumes "update_daily_time cond upd c = (res, c1)" and "\<And>r. Date (upd r) = Date r"
    and "\<And>r. ID (upd r) = ID r" and "wf_db c"
  shows "wf_db c1"
proof -
  from update_daily_time_tables[OF assms(1)] have
    seq: "daily_time_seq c1 = daily_time_seq c" and
    rows: "daily_time c1 = daily_time c \<or>
           daily_time c1 = map (\<lambda>r. if cond r then upd r else r) (daily_time c)"
    by auto
  from rows show ?thesis
  proof
    assume "daily_time c1 = daily_time c"
    with seq assms(4) show ?thesis by (rule wf_db_same[rotated 1, rotated 1])
  next
    assume m: "daily_time c1 = map (\<lambda>r. if cond r then upd r else r) (daily_time c)"
    show ?thesis
      by (rule wf_db_map[OF assms(4) _ _ m seq]) (simp_all add: assms(2,3))
  qed
qed

lemma LogSystemEvent_entry_of:
  "entry_of d (snd (LogSystemEvent ts ty details c)) = entry_of d c"
  by (simp add: entry_of_def LogSystemEvent_daily)

lemma LogSystemEvent_wf:
  "wf_db c \<Longrightarrow> wf_db (snd (LogSystemEvent ts ty details c))"
  by (simp add: wf_db_def LogSystemEvent_daily)

lemma driver_call_entry_of:
  "driver_call c = (f, c1) \<Longrightarrow> entry_of d c1 = entry_of d c"
  by (auto simp: entry_of_def dest: driver_call_tables)

lemma driver_call_wf:
  "driver_call c = (f, c1) \<Longrightarrow> wf_db c \<Longrightarrow> wf_db c1"
  by (auto simp: wf_db_def dest: driver_call_tables)

text \<open>The chain of statements inside IncrementActiveTimeForDate.\<close>

lemma IncrementActiveTimeForDate_chain:
  assumes "IncrementActiveTimeForDate ts date c = (res, c')"
  shows "\<exists>r1 c1. GetEntryForDate ts date c = (r1, c1) \<and>
           ((\<forall>d. entry_of d c' = entry_of d c1) \<or>
            (\<exists>r2 c2. update_daily_time (\<lambda>r. Date r = date \<and> IsPaused r = False)
                        (\<lambda>r. r\<lparr>ActiveMinutes := ActiveMinutes r + 1, UpdatedAt := ts\<rparr>) c1 = (r2, c2) \<and>
                     (\<forall>d. entry_of d c' = entry_of d c2)))"
  using assms
  apply (simp add: IncrementActiveTimeForDate_def split: prod.splits sum.splits bool.splits if_splits)
  apply (auto simp: LogSystemEvent_entry_of dest: driver_call_entry_of)
  done

lemma IncrementActiveTimeForDate_entry_of:
  assumes "IncrementActiveTimeForDate ts date c = (res, c')"
  shows "entry_of d c' = entry_of d c \<or>
         (d = date \<and> entry_of d c = None \<and>
            (entry_of d c' = Some (fresh_row ts date (daily_time_seq c + 1)) \<or>
             entry_of d c' = Some ((fresh_row ts date (daily_time_seq c + 1))
                                    \<lparr>ActiveMinutes := 1, UpdatedAt := ts\<rparr>))) \<or>
         (d = date \<and> (\<exists>r. entry_of d c = Some r \<and> \<not> IsPaused r \<and>
            entry_of d c' = Some (r\<lparr>ActiveMinutes := ActiveMinutes r + 1, UpdatedAt := ts\<rparr>)))"
proof -
  from IncrementActiveTimeForDate_chain[OF assms] obtain r1 c1 where
    g: "GetEntryForDate ts date c = (r1, c1)" and
    rest: "(\<forall>d. entry_of d c' = entry_of d c1) \<or>
            (\<exists>r2 c2. update_daily_time (\<lambda>r. Date r = date \<and> IsPaused r = False)
                        (\<lambda>r. r\<lparr>ActiveMinutes := ActiveMinutes r + 1, UpdatedAt := ts\<rparr>) c1 = (r2, c2) \<and>
                     (\<forall>d. entry_of d c' = entry_of d c2))"
    by blast
  note g1 = GetEntryForDate_entry_of_at[OF g, of d]
  from rest show ?thesis
  proof
    assume "\<forall>d. entry_of d c' = entry_of d c1"
    with g1 show ?thesis by auto
  next
    assume "\<exists>r2 c2. update_daily_time (\<lambda>r. Date r = date \<and> IsPaused r = False)
                        (\<lambda>r. r\<lparr>ActiveMinutes := ActiveMinutes r + 1, UpdatedAt := ts\<rparr>) c1 = (r2, c2) \<and>
                     (\<forall>d. entry_of d c' = entry_of d c2)"
    then obtain r2 c2 where
      u: "update_daily_time (\<lambda>r. Date r = date \<and> IsPaused r = False)
            (\<lambda>r. r\<lparr>ActiveMinutes := ActiveMinutes r + 1, UpdatedAt := ts\<rparr>) c1 = (r2, c2)"
      and e: "entry_of d c' = entry_of d c2" by blast
    have dd: "\<And>r. entry_of d c1 = Some r \<Longrightarrow> Date r = d"
      by (auto simp: entry_of_def dest: find_Some_iff[THEN iffD1])
    from update_daily_time_entry_of[OF u, of d]
    have "entry_of d c2 = entry_of d c1 \<or>
          entry_of d c2 = map_option (\<lambda>r. if Date r = date \<and> IsPaused r = False
             then r\<lparr>ActiveMinutes := ActiveMinutes r + 1, UpdatedAt := ts\<rparr> else r) (entry_of d c1)"
      by auto
    then show ?thesis
    proof
      assume "entry_of d c2 = entry_of d c1"
      with e g1 show ?thesis by auto
    next
      assume m: "entry_of d c2 = map_option (\<lambda>r. if Date r = date \<and> IsPaused r = False
             then r\<lparr>ActiveMinutes := ActiveMinutes r + 1, UpdatedAt := ts\<rparr> else r) (entry_of d c1)"
      show ?thesis
      proof (cases "entry_of d c1")
        case None
        with m e g1 show ?thesis by auto
      next
        case (Some r)
        from dd[OF Some] have dr: "Date r = d" .
        show ?thesis
        proof (cases "d = date \<and> \<not> IsPaused r")
          case False
          with m e Some dr have "entry_of d c' = entry_of d c1" by auto
          with g1 show ?thesis by auto
        next
          case True
          with m e Some dr have
            e': "entry_of d c' = Some (r\<lparr>ActiveMinutes := ActiveMinutes r + 1, UpdatedAt := ts\<rparr>)"
            by auto
          from g1 show ?thesis
          proof
            assume "entry_of d c1 = entry_of d c"
            with Some have c: "entry_of d c = Some r" by simp
            from c e' True show ?thesis by blast
          next
            assume "d = date \<and> entry_of d c = None \<and>
              entry_of d c1 = Some (fresh_row ts date (daily_time_seq c + 1))"
            with Some e' show ?thesis by (auto simp: fresh_row_def)
          qed
        qed
      qed
    qed
  qed
qed

lemma IncrementActiveTimeForDate_obs:
  assumes "IncrementActiveTimeForDate ts date c = (res, c')"
  shows "submitted d c' = submitted d c" and "paused_of d c' = paused_of d c"
    and "minutes_of d c' = minutes_of d c \<or>
         (minutes_of d c' = minutes_of d c + 1 \<and> d = date \<and> \<not> paused_of d c)"
    and "d \<noteq> date \<Longrightarrow> entry_of d c' = entry_of d c"
  using IncrementActiveTimeForDate_entry_of[OF assms, of d]
  by (auto simp: minutes_of_def paused_of_def submitted_def fresh_row_def)

lemma IncrementActiveTimeForDate_wf:
  assumes "IncrementActiveTimeForDate ts date c = (res, c')" and "wf_db c"
  shows "wf_db c'"
  using assms
  apply (simp add: IncrementActiveTimeForDate_def split: prod.splits sum.splits bool.splits if_splits)
  apply (auto intro!: LogSystemEvent_wf
      dest!: GetEntryForDate_wf
      dest: driver_call_wf update_daily_time_wf[rotated 3])
  done

lemma SetPauseStateForDate_chain:
  assumes "SetPauseStateForDate ts date paused c = (res, c')"
  shows "\<exists>r1 c1. GetEntryForDate ts date c = (r1, c1) \<and>
           ((res \<noteq> None \<and> (\<forall>d. entry_of d c' = entry_of d c1)) \<or>
            (\<exists>e c2. r1 = Inr e \<and> res = None \<and>
               update_daily_time (\<lambda>r. Date r = date)
                 (\<lambda>r. r\<lparr>IsPaused := paused, UpdatedAt := ts\<rparr>) c1
                 = (Inr (length (filter (\<lambda>r. Date r = date) (daily_time c1))), c2) \<and>
               (\<forall>d. entry_of d c' = entry_of d c2)))"
  using assms
  apply (simp add: SetPauseStateForDate_def split: prod.splits sum.splits)
   apply (auto simp: LogSystemEvent_entry_of dest: update_daily_time_entry_of update_daily_time_tables)
  done

lemma SetPauseStateForDate_entry_of:
  assumes "SetPauseStateForDate ts date paused c = (res, c')"
  shows "entry_of d c' = entry_of d c \<or>
         (d = date \<and> entry_of d c = None \<and>
            (entry_of d c' = Some (fresh_row ts date (daily_time_seq c + 1)) \<or>
             entry_of d c' = Some ((fresh_row ts date (daily_time_seq c + 1))
                                    \<lparr>IsPaused := paused, UpdatedAt := ts\<rparr>))) \<or>
         (d = date \<and> (\<exists>r. entry_of d c = Some r \<and>
            entry_of d c' = Some (r\<lparr>IsPaused := paused, UpdatedAt := ts\<rparr>)))"
proof -
  from SetPauseStateForDate_chain[OF assms] obtain r1 c1 where
    g: "GetEntryForDate ts date c = (r1, c1)" and
    rest: "(\<forall>d. entry_of d c' = entry_of d c1) \<or>
            (\<exists>c2. update_daily_time (\<lambda>r. Date r = date)
                 (\<lambda>r. r\<lparr>IsPaused := paused, UpdatedAt := ts\<rparr>) c1
                 = (Inr (length (filter (\<lambda>r. Date r = date) (daily_time c1))), c2) \<and>
               (\<forall>d. entry_of d c' = entry_of d c2))"
    by blast
  note g1 = GetEntryForDate_entry_of_at[OF g, of d]
  from rest show ?thesis
  proof
    assume "\<forall>d. entry_of d c' = entry_of d c1"
    with g1 show ?thesis by auto
  next
    assume "\<exists>c2. update_daily_time (\<lambda>r. Date r = date)
                 (\<lambda>r. r\<lparr>IsPaused := paused, UpdatedAt := ts\<rparr>) c1
                 = (Inr (length (filter (\<lambda>r. Date r = date) (daily_time c1))), c2) \<and>
               (\<forall>d. entry_of d c' = entry_of d c2)"
    then obtain c2 where
      u: "update_daily_time (\<lambda>r. Date r = date)
            (\<lambda>r. r\<lparr>IsPaused := paused, UpdatedAt := ts\<rparr>) c1
            = (Inr (length (filter (\<lambda>r. Date r = date) (daily_time c1))), c2)"
      and e: "entry_of d c' = entry_of d c2" by blast
    have dd: "\<And>r. entry_of d c1 = Some r \<Longrightarrow> Date r = d"
      by (auto simp: entry_of_def dest: find_Some_iff[THEN iffD1])
    from update_daily_time_entry_of[OF u, of d]
    have m: "entry_of d c2 = map_option (\<lambda>r. if Date r = date
             then r\<lparr>IsPaused := paused, UpdatedAt := ts\<rparr> else r) (entry_of d c1)"
      by auto
    show ?thesis
    proof (cases "entry_of d c1")
      case None
      with m e g1 show ?thesis by auto
    next
      case (Some r)
      from dd[OF Some] have dr: "Date r = d" .
      show ?thesis
      proof (cases "d = date")
        case False
        with m e Some dr have "entry_of d c' = entry_of d c1" by auto
        with g1 show ?thesis by auto
      next
        case True
        with m e Some dr have
          e': "entry_of d c' = Some (r\<lparr>IsPaused := paused, UpdatedAt := ts\<rparr>)"
          by auto
        from g1 show ?thesis
        proof
          assume "entry_of d c1 = entry_of d c"
          with Some have c: "entry_of d c = Some r" by simp
          from c e' True show ?thesis by blast
        next
          assume "d = date \<and> entry_of d c = None \<and>
            entry_of d c1 = Some (fresh_row ts date (daily_time_seq c + 1))"
          with Some e' show ?thesis by (auto simp: fresh_row_def)
        qed
      qed
    qed
  qed
qed

lemma SetPauseStateForDate_obs:
  assumes "SetPauseStateForDate ts date paused c = (res, c')"
  shows "submitted d c' = submitted d c" and "minutes_of d c' = minutes_of d c"
    and "d \<noteq> date \<Longrightarrow> entry_of d c' = entry_of d c"
  using SetPauseStateForDate_entry_of[OF assms, of d]
  by (auto simp: minutes_of_def paused_of_def submitted_def fresh_row_def)

lemma SetPauseStateForDate_wf:
  assumes "SetPauseStateForDate ts date paused c = (res, c')" and "wf_db c"
  shows "wf_db c'"
  using assms
  apply (simp add: SetPauseStateForDate_def split: prod.splits sum.splits)
   apply (auto intro!: LogSystemEvent_wf
      dest!: GetEntryForDate_wf
      dest: update_daily_time_wf[rotated 3])
  done

lemma SetPauseStateForDate_persists:
  assumes "SetPauseStateForDate ts date paused c = (None, c')" and "wf_db c"
  shows "\<exists>r. entry_of date c' = Some r \<and> IsPaused r = paused"
proof -
  from SetPauseStateForDate_chain[OF assms(1)] obtain e c1 c2 where
    g: "GetEntryForDate ts date c = (Inr e, c1)" and
    u: "update_daily_time (\<lambda>r. Date r = date)
            (\<lambda>r. r\<lparr>IsPaused := paused, UpdatedAt := ts\<rparr>) c1
            = (Inr (length (filter (\<lambda>r. Date r = date) (daily_time c1))), c2)"
      and e: "entry_of date c' = entry_of date c2" by auto
  from GetEntryForDate_result[OF g assms(2)] have e1: "entry_of date c1 = Some e" "Date e = date"
    by auto
  from update_daily_time_entry_of[OF u, of date] e1
  have "entry_of date c2 = Some (e\<lparr>IsPaused := paused, UpdatedAt := ts\<rparr>)" by auto
  with e show ?thesis by simp
qed

lemma SetPauseStateForDate_nofault:
  assumes "faults c = []" and "wf_db c"
  shows "fst (SetPauseStateForDate ts date paused c) = None \<and>
         faults (snd (SetPauseStateForDate ts date paused c)) = []"
proof -
  from GetEntryForDate_nofault_ex[OF assms] obtain e c1 where
    g: "GetEntryForDate ts date c = (Inr e, c1)" and f1: "faults c1 = []" by blast
  show ?thesis
    by (simp add: SetPauseStateForDate_def g update_daily_time_def driver_call_nofault f1
          LogSystemEvent_def Let_def)
qed

subsection \<open>MarkAsAutoLogged\<close>

lemma MarkAsAutoLogged_tables:
  assumes "MarkAsAutoLogged ts date response c = (res, c')"
  shows "daily_time_seq c' = daily_time_seq c"
    and "res \<noteq> None \<Longrightarrow> persisted c' = persisted c"
    and "res = None \<Longrightarrow>
          daily_time c' = map (\<lambda>r. if Date r = date
             then r\<lparr>AutoLogged := True, AutoLogResponse := response, UpdatedAt := ts\<rparr> else r)
             (daily_time c) \<and>
          ((system_events c' = system_events c \<and> system_events_seq c' = system_events_seq c) \<or>
           (system_events c' = system_events c @
              [\<lparr>EventID = system_events_seq c + 1, EventType = ''auto_logged'', Timestamp = ts,
                Details = ''Date: '' @ date\<rparr>] \<and>
            system_events_seq c' = system_events_seq c + 1))"
proof -
  obtain r1 c1 where u: "update_daily_time (\<lambda>r. Date r = date)
      (\<lambda>r. r\<lparr>AutoLogged := True, AutoLogResponse := response, UpdatedAt := ts\<rparr>) c = (r1, c1)"
    by (cases "update_daily_time (\<lambda>r. Date r = date)
      (\<lambda>r. r\<lparr>AutoLogged := True, AutoLogResponse := response, UpdatedAt := ts\<rparr>) c") auto
  note ut = update_daily_time_tables[OF u]
  obtain r2 c2 where l: "LogSystemEvent ts ''auto_logged'' (''Date: '' @ date) c1 = (r2, c2)"
    by (cases "LogSystemEvent ts ''auto_logged'' (''Date: '' @ date) c1") auto
  note lt = LogSystemEvent_tables[OF l]
  show "daily_time_seq c' = daily_time_seq c"
    using assms u l ut lt by (cases r1) (auto simp: MarkAsAutoLogged_def)
  show "res \<noteq> None \<Longrightarrow> persisted c' = persisted c"
    using assms u l ut lt by (cases r1) (auto simp: MarkAsAutoLogged_def persisted_def)
  show "res = None \<Longrightarrow>
          daily_time c' = map (\<lambda>r. if Date r = date
             then r\<lparr>AutoLogged := True, AutoLogResponse := response, UpdatedAt := ts\<rparr> else r)
             (daily_time c) \<and>
          ((system_events c' = system_events c \<and> system_events_seq c' = system_events_seq c) \<or>
           (system_events c' = system_events c @
              [\<lparr>EventID = system_events_seq c + 1, EventType = ''auto_logged'', Timestamp = ts,
                Details = ''Date: '' @ date\<rparr>] \<and>
            system_events_seq c' = system_events_seq c + 1))"
    using assms u l ut lt by (cases r1) (auto simp: MarkAsAutoLogged_def)
qed

lemma MarkAsAutoLogged_entry_of:
  assumes "MarkAsAutoLogged ts date response c = (res, c')"
  shows "(res \<noteq> None \<and> entry_of d c' = entry_of d c) \<or>
         (res = None \<and> entry_of d c' = map_option (\<lambda>r. if Date r = date
             then r\<lparr>AutoLogged := True, AutoLogResponse := response, UpdatedAt := ts\<rparr> else r)
             (entry_of d c))"
proof (cases res)
  case None
  have g: "\<And>r. Date (if Date r = date
             then r\<lparr>AutoLogged := True, AutoLogResponse := response, UpdatedAt := ts\<rparr> else r) = Date r"
    by simp
  from MarkAsAutoLogged_tables(3)[OF assms None] None show ?thesis
    unfolding entry_of_def by (simp add: find_date_map[OF g])
next
  case (Some e)
  with MarkAsAutoLogged_tables(2)[OF assms] show ?thesis
    by (simp add: entry_of_def persisted_def)
qed

lemma entry_of_Date: "entry_of d c = Some r \<Longrightarrow> Date r = d"
  by (auto simp: entry_of_def dest: find_Some_iff[THEN iffD1])

lemma MarkAsAutoLogged_obs:
  assumes "MarkAsAutoLogged ts date response c = (res, c')"
  shows "submitted d c \<Longrightarrow> submitted d c'" and "minutes_of d c' = minutes_of d c"
    and "paused_of d c' = paused_of d c"
    and "d \<noteq> date \<Longrightarrow> entry_of d c' = entry_of d c"
  using MarkAsAutoLogged_entry_of[OF assms, of d]
  by (cases "entry_of d c";
      auto simp: minutes_of_def paused_of_def submitted_def split: if_splits
        dest: entry_of_Date)+

lemma MarkAsAutoLogged_wf:
  assumes "MarkAsAutoLogged ts date response c = (res, c')" and "wf_db c"
  shows "wf_db c'"
proof (cases res)
  case None
  from MarkAsAutoLogged_tables(1,3)[OF assms(1)] None show ?thesis
    by (intro wf_db_map[OF assms(2), where g="\<lambda>r. if Date r = date
             then r\<lparr>AutoLogged := True, AutoLogResponse := response, UpdatedAt := ts\<rparr> else r"]) auto
next
  case (Some e)
  with MarkAsAutoLogged_tables(2)[OF assms(1)] assms(2) show ?thesis
    by (simp add: wf_db_def persisted_def)
qed

lemma logPrintf_fields [simp]:
  "db (logPrintf l s) = db s" "heap (logPrintf l s) = heap s"
  "heap_next (logPrintf l s) = heap_next s" "goroutines (logPrintf l s) = goroutines s"
  "invoked (logPrintf l s) = invoked s" "log_output (logPrintf l s) = log_output s @ [l]"
  "monitorRunning (logPrintf l s) = monitorRunning s" "isTracking (logPrintf l s) = isTracking s"
  "currentEntry (logPrintf l s) = currentEntry s"
  "stateChangeCallbacks (logPrintf l s) = stateChangeCallbacks s"
  "logChan (logPrintf l s) = logChan s" "api_calls (logPrintf l s) = api_calls s"
  by (simp_all add: logPrintf_def)

lemma notifyStateChange_fields [simp]:
  "db (notifyStateChange a p s) = db s" "heap (notifyStateChange a p s) = heap s"
  "heap_next (notifyStateChange a p s) = heap_next s"
  "goroutines (notifyStateChange a p s) = goroutines s @
     map (\<lambda>cb. \<lparr>g_callback = cb, g_isActive = a, g_entry = p\<rparr>) (stateChangeCallbacks s)"
  "invoked (notifyStateChange a p s) = invoked s"
  "log_output (notifyStateChange a p s) = log_output s"
  "monitorRunning (notifyStateChange a p s) = monitorRunning s"
  "isTracking (notifyStateChange a p s) = isTracking s"
  "currentEntry (notifyStateChange a p s) = currentEntry s"
  "stateChangeCallbacks (notifyStateChange a p s) = stateChangeCallbacks s"
  "logChan (notifyStateChange a p s) = logChan s" "api_calls (notifyStateChange a p s) = api_calls s"
  by (simp_all add: notifyStateChange_def)

lemma GetTodayEntry_cases:
  assumes "GetTodayEntry ts today s = (res, s1)"
  shows "\<exists>r c1. GetEntryForDate ts today (db s) = (r, c1) \<and>
           ((\<exists>err. r = Inl err \<and> res = Inl err \<and> s1 = s\<lparr>db := c1\<rparr>) \<or>
            (\<exists>e. r = Inr e \<and> res = Inr (heap_next s) \<and>
                 s1 = s\<lparr>db := c1, heap := (heap s)(heap_next s := e),
                        heap_next := Suc (heap_next s)\<rparr>))"
  using assms
  by (auto simp: GetTodayEntry_def new_entry_def split: prod.splits sum.splits)

lemma GetTodayEntry_frame:
  assumes "GetTodayEntry ts today s = (res, s1)"
  shows "currentEntry s1 = currentEntry s" "stateChangeCallbacks s1 = stateChangeCallbacks s"
    "goroutines s1 = goroutines s" "invoked s1 = invoked s" "isTracking s1 = isTracking s"
    "logChan s1 = logChan s" "api_calls s1 = api_calls s" "log_output s1 = log_output s"
    "monitorRunning s1 = monitorRunning s"
  using GetTodayEntry_cases[OF assms] by auto

lemma GetTodayEntry_db_step:
  assumes "GetTodayEntry ts today s = (res, s1)"
  shows "\<exists>r. GetEntryForDate ts today (db s) = (r, db s1)"
  using GetTodayEntry_cases[OF assms] by auto

lemma GetTodayEntry_db:
  assumes "GetTodayEntry ts today s = (res, s1)"
  shows "minutes_of d (db s1) = minutes_of d (db s)" "paused_of d (db s1) = paused_of d (db s)"
    "submitted d (db s1) = submitted d (db s)"
    "d \<noteq> today \<Longrightarrow> entry_of d (db s1) = entry_of d (db s)"
proof -
  from GetTodayEntry_db_step[OF assms] obtain r where
    g: "GetEntryForDate ts today (db s) = (r, db s1)" by blast
  show "minutes_of d (db s1) = minutes_of d (db s)" by (rule GetEntryForDate_obs(1)[OF g])
  show "paused_of d (db s1) = paused_of d (db s)" by (rule GetEntryForDate_obs(2)[OF g])
  show "submitted d (db s1) = submitted d (db s)" by (rule GetEntryForDate_obs(3)[OF g])
  show "d \<noteq> today \<Longrightarrow> entry_of d (db s1) = entry_of d (db s)"
    by (rule GetEntryForDate_other[OF g])
qed

lemma GetTodayEntry_wf:
  assumes "GetTodayEntry ts today s = (res, s1)" and "wf_db (db s)"
  shows "wf_db (db s1)"
proof -
  from GetTodayEntry_db_step[OF assms(1)] obtain r where
    g: "GetEntryForDate ts today (db s) = (r, db s1)" by blast
  from GetEntryForDate_wf[OF g assms(2)] show ?thesis .
qed

lemma GetTodayEntry_result:
  assumes "GetTodayEntry ts today s = (Inr q, s1)" and "wf_db (db s)"
  shows "entry_of today (db s1) = Some (heap s1 q) \<and> Date (heap s1 q) = today \<and>
         q = heap_next s \<and> (\<forall>a. a \<noteq> q \<longrightarrow> heap s1 a = heap s a)"
  using GetTodayEntry_cases[OF assms(1)] assms(2)
  by (auto dest: GetEntryForDate_result)

lemma GetTodayEntry_nofault:
  assumes "faults (db s) = []" and "wf_db (db s)"
  shows "\<exists>q s1. GetTodayEntry ts today s = (Inr q, s1) \<and> faults (db s1) = []"
proof -
  from GetEntryForDate_nofault_ex[OF assms] obtain e c1 where
    "GetEntryForDate ts today (db s) = (Inr e, c1)" "faults c1 = []" by blast
  then show ?thesis by (simp add: GetTodayEntry_def new_entry_def)
qed

lemma rollover_cases:
  "rollover t p s = s \<or>
   (\<exists>r s1. GetTodayEntry (stamp t) (now_newday t) (logPrintf LogDayRollover s) = (r, s1) \<and>
            db (rollover t p s) = db s1)"
  by (cases "GetTodayEntry (stamp t) (now_newday t) (logPrintf LogDayRollover s)")
     (auto simp: rollover_def split: sum.splits)

lemma rollover_db:
  shows "minutes_of d (db (rollover t p s)) = minutes_of d (db s)"
    "paused_of d (db (rollover t p s)) = paused_of d (db s)"
    "submitted d (db (rollover t p s)) = submitted d (db s)"
    "d \<noteq> now_newday t \<Longrightarrow> entry_of d (db (rollover t p s)) = entry_of d (db s)"
  using rollover_cases[of t p s] GetTodayEntry_db[of "stamp t" "now_newday t" "logPrintf LogDayRollover s" _ _ d]
  by (elim disjE exE conjE; simp)+

lemma rollover_wf:
  "wf_db (db s) \<Longrightarrow> wf_db (db (rollover t p s))"
  using rollover_cases[of t p s] GetTodayEntry_wf[of "stamp t" "now_newday t" "logPrintf LogDayRollover s"]
  by (elim disjE exE conjE; simp)

lemma rollover_currentEntry:
  "currentEntry s = Some p \<Longrightarrow> \<exists>q. currentEntry (rollover t p s) = Some q"
  by (cases "GetTodayEntry (stamp t) (now_newday t) (logPrintf LogDayRollover s)")
     (auto simp: rollover_def GetTodayEntry_frame(1) split: sum.splits)

lemma tick_cases:
  assumes "processMinuteIncrement cfg t s = Some s'"
  shows "\<exists>p. currentEntry s = Some p \<and>
     ((\<not> (probe_active t \<and> \<not> IsPaused (heap s p)) \<and> s' = rollover t p s) \<or>
      (probe_active t \<and> \<not> IsPaused (heap s p) \<and>
       (\<exists>r c1. IncrementActiveTimeForDate (stamp t) (now_increment t) (db s) = (r, c1) \<and>
          ((\<exists>err. r = Some err \<and> s' = logPrintf (LogIncrementError err) (s\<lparr>db := c1\<rparr>)) \<or>
           (r = None \<and>
            (\<exists>r2 s1. GetTodayEntry (stamp t) (now_refresh t) (s\<lparr>db := c1\<rparr>) = (r2, s1) \<and>
               ((\<exists>err. r2 = Inl err \<and> s' = logPrintf (LogRefreshError err) s1) \<or>
                (\<exists>q s3. r2 = Inr q \<and> s' = rollover t q s3 \<and> db s3 = db s1 \<and>
                     currentEntry s3 = Some q \<and> heap s3 = heap s1))))))))"
proof (cases "currentEntry s")
  case None
  with assms show ?thesis by (simp add: processMinuteIncrement_def)
next
  case (Some p)
  show ?thesis
  proof (cases "probe_active t \<and> \<not> IsPaused (heap s p)")
    case False
    with Some assms show ?thesis by (auto simp: processMinuteIncrement_def Let_def)
  next
    case True
    obtain r c1 where inc: "IncrementActiveTimeForDate (stamp t) (now_increment t) (db s) = (r, c1)"
      by (cases "IncrementActiveTimeForDate (stamp t) (now_increment t) (db s)") auto
    show ?thesis
    proof (cases r)
      case (Some err)
      with \<open>currentEntry s = Some p\<close> True inc assms show ?thesis
        by (auto simp: processMinuteIncrement_def Let_def)
    next
      case None
      obtain r2 s1 where gt: "GetTodayEntry (stamp t) (now_refresh t) (s\<lparr>db := c1\<rparr>) = (r2, s1)"
        by (cases "GetTodayEntry (stamp t) (now_refresh t) (s\<lparr>db := c1\<rparr>)") auto
      show ?thesis
      proof (cases r2)
        case (Inl err)
        with \<open>currentEntry s = Some p\<close> True inc None gt assms show ?thesis
          by (auto simp: processMinuteIncrement_def Let_def)
      next
        case (Inr q)
        let ?s2 = "logPrintf (LogTimeIncremented (ActiveMinutes (heap s1 q)))
                     (s1\<lparr>currentEntry := Some q\<rparr>)"
        let ?s3 = "if entry_ShouldAutoLog (cfg_AutoLogThresholdMinutes cfg) (heap ?s2 q)
                   then logPrintf (LogThresholdReached (ActiveMinutes (heap ?s2 q))) ?s2
                   else ?s2"
        have s': "s' = rollover t q (notifyStateChange (probe_active t) q ?s3)"
          using \<open>currentEntry s = Some p\<close> True inc None gt Inr assms
          by (simp add: processMinuteIncrement_def Let_def)
        have "db (notifyStateChange (probe_active t) q ?s3) = db s1"
          "currentEntry (notifyStateChange (probe_active t) q ?s3) = Some q"
          "heap (notifyStateChange (probe_active t) q ?s3) = heap s1"
          by simp_all
        with s' \<open>currentEntry s = Some p\<close> True inc None gt Inr show ?thesis by blast
      qed
    qed
  qed
qed

lemma tick_db:
  assumes "processMinuteIncrement cfg t s = Some s'"
  shows "submitted d (db s') = submitted d (db s)"
    and "paused_of d (db s') = paused_of d (db s)"
    and "minutes_of d (db s') = minutes_of d (db s) \<or>
         (minutes_of d (db s') = minutes_of d (db s) + 1 \<and> d = now_increment t \<and>
          \<not> paused_of d (db s) \<and> probe_active t \<and>
          (\<exists>p. currentEntry s = Some p \<and> \<not> IsPaused (heap s p)))"
    and "d \<noteq> now_increment t \<Longrightarrow> d \<noteq> now_refresh t \<Longrightarrow> d \<noteq> now_newday t \<Longrightarrow>
         entry_of d (db s') = entry_of d (db s)"
    and "wf_db (db s) \<Longrightarrow> wf_db (db s')"
    and "\<exists>q. currentEntry s' = Some q"
proof -
  from tick_cases[OF assms] obtain p where p: "currentEntry s = Some p" and
    cs: "(\<not> (probe_active t \<and> \<not> IsPaused (heap s p)) \<and> s' = rollover t p s) \<or>
      (probe_active t \<and> \<not> IsPaused (heap s p) \<and>
       (\<exists>r c1. IncrementActiveTimeForDate (stamp t) (now_increment t) (db s) = (r, c1) \<and>
          ((\<exists>err. r = Some err \<and> s' = logPrintf (LogIncrementError err) (s\<lparr>db := c1\<rparr>)) \<or>
           (r = None \<and>
            (\<exists>r2 s1. GetTodayEntry (stamp t) (now_refresh t) (s\<lparr>db := c1\<rparr>) = (r2, s1) \<and>
               ((\<exists>err. r2 = Inl err \<and> s' = logPrintf (LogRefreshError err) s1) \<or>
                (\<exists>q s3. r2 = Inr q \<and> s' = rollover t q s3 \<and> db s3 = db s1 \<and>
                     currentEntry s3 = Some q \<and> heap s3 = heap s1)))))))"
    by blast
  have all: "submitted d (db s') = submitted d (db s) \<and>
    paused_of d (db s') = paused_of d (db s) \<and>
    (minutes_of d (db s') = minutes_of d (db s) \<or>
         (minutes_of d (db s') = minutes_of d (db s) + 1 \<and> d = now_increment t \<and>
          \<not> paused_of d (db s) \<and> probe_active t \<and>
          (\<exists>p. currentEntry s = Some p \<and> \<not> IsPaused (heap s p)))) \<and>
    (d \<noteq> now_increment t \<longrightarrow> d \<noteq> now_refresh t \<longrightarrow> d \<noteq> now_newday t \<longrightarrow>
         entry_of d (db s') = entry_of d (db s)) \<and>
    (wf_db (db s) \<longrightarrow> wf_db (db s')) \<and> (\<exists>q. currentEntry s' = Some q)"
    using cs
  proof
    assume "\<not> (probe_active t \<and> \<not> IsPaused (heap s p)) \<and> s' = rollover t p s"
    then show ?thesis using p by (simp add: rollover_db rollover_wf rollover_currentEntry)
  next
    assume a: "probe_active t \<and> \<not> IsPaused (heap s p) \<and>
       (\<exists>r c1. IncrementActiveTimeForDate (stamp t) (now_increment t) (db s) = (r, c1) \<and>
          ((\<exists>err. r = Some err \<and> s' = logPrintf (LogIncrementError err) (s\<lparr>db := c1\<rparr>)) \<or>
           (r = None \<and>
            (\<exists>r2 s1. GetTodayEntry (stamp t) (now_refresh t) (s\<lparr>db := c1\<rparr>) = (r2, s1) \<and>
               ((\<exists>err. r2 = Inl err \<and> s' = logPrintf (LogRefreshError err) s1) \<or>
                (\<exists>q s3. r2 = Inr q \<and> s' = rollover t q s3 \<and> db s3 = db s1 \<and>
                     currentEntry s3 = Some q \<and> heap s3 = heap s1))))))"
    then obtain r c1 where act: "probe_active t" "\<not> IsPaused (heap s p)" and
      inc: "IncrementActiveTimeForDate (stamp t) (now_increment t) (db s) = (r, c1)" and
      rest: "(\<exists>err. r = Some err \<and> s' = logPrintf (LogIncrementError err) (s\<lparr>db := c1\<rparr>)) \<or>
           (r = None \<and>
            (\<exists>r2 s1. GetTodayEntry (stamp t) (now_refresh t) (s\<lparr>db := c1\<rparr>) = (r2, s1) \<and>
               ((\<exists>err. r2 = Inl err \<and> s' = logPrintf (LogRefreshError err) s1) \<or>
                (\<exists>q s3. r2 = Inr q \<and> s' = rollover t q s3 \<and> db s3 = db s1 \<and>
                     currentEntry s3 = Some q \<and> heap s3 = heap s1))))"
      by blast
    note io = IncrementActiveTimeForDate_obs[OF inc, of d]
    note iw = IncrementActiveTimeForDate_wf[OF inc]
    have c1: "submitted d c1 = submitted d (db s) \<and>
        paused_of d c1 = paused_of d (db s) \<and>
        (minutes_of d c1 = minutes_of d (db s) \<or>
         (minutes_of d c1 = minutes_of d (db s) + 1 \<and> d = now_increment t \<and>
          \<not> paused_of d (db s) \<and> probe_active t \<and>
          (\<exists>p. currentEntry s = Some p \<and> \<not> IsPaused (heap s p)))) \<and>
        (d \<noteq> now_increment t \<longrightarrow> entry_of d c1 = entry_of d (db s)) \<and>
        (wf_db (db s) \<longrightarrow> wf_db c1)"
      using io iw act p by auto
    from rest show ?thesis
    proof
      assume "\<exists>err. r = Some err \<and> s' = logPrintf (LogIncrementError err) (s\<lparr>db := c1\<rparr>)"
      then show ?thesis using c1 p by auto
    next
      assume "r = None \<and>
            (\<exists>r2 s1. GetTodayEntry (stamp t) (now_refresh t) (s\<lparr>db := c1\<rparr>) = (r2, s1) \<and>
               ((\<exists>err. r2 = Inl err \<and> s' = logPrintf (LogRefreshError err) s1) \<or>
                (\<exists>q s3. r2 = Inr q \<and> s' = rollover t q s3 \<and> db s3 = db s1 \<and>
                     currentEntry s3 = Some q \<and> heap s3 = heap s1)))"
      then obtain r2 s1 where
        gt: "GetTodayEntry (stamp t) (now_refresh t) (s\<lparr>db := c1\<rparr>) = (r2, s1)" and
        fin: "(\<exists>err. r2 = Inl err \<and> s' = logPrintf (LogRefreshError err) s1) \<or>
                (\<exists>q s3. r2 = Inr q \<and> s' = rollover t q s3 \<and> db s3 = db s1 \<and>
                     currentEntry s3 = Some q \<and> heap s3 = heap s1)"
        by blast
      note gd = GetTodayEntry_db[OF gt, of d, simplified] GetTodayEntry_wf[OF gt, simplified]
      note gf = GetTodayEntry_frame(1)[OF gt, simplified]
      have s1: "submitted d (db s1) = submitted d (db s) \<and>
        paused_of d (db s1) = paused_of d (db s) \<and>
        (minutes_of d (db s1) = minutes_of d (db s) \<or>
         (minutes_of d (db s1) = minutes_of d (db s) + 1 \<and> d = now_increment t \<and>
          \<not> paused_of d (db s) \<and> probe_active t \<and>
          (\<exists>p. currentEntry s = Some p \<and> \<not> IsPaused (heap s p)))) \<and>
        (d \<noteq> now_increment t \<longrightarrow> d \<noteq> now_refresh t \<longrightarrow> entry_of d (db s1) = entry_of d (db s)) \<and>
        (wf_db (db s) \<longrightarrow> wf_db (db s1))"
        using c1 gd by auto
      from fin show ?thesis
      proof
        assume "\<exists>err. r2 = Inl err \<and> s' = logPrintf (LogRefreshError err) s1"
        then show ?thesis using s1 gf p by auto
      next
        assume "\<exists>q s3. r2 = Inr q \<and> s' = rollover t q s3 \<and> db s3 = db s1 \<and>
                     currentEntry s3 = Some q \<and> heap s3 = heap s1"
        then obtain q s3 where s3: "db s3 = db s1" "currentEntry s3 = Some q" "s' = rollover t q s3"
          by blast
        show ?thesis
          using s1 s3 rollover_db[of d t q s3] rollover_wf[of s3 t q]
            rollover_currentEntry[OF s3(2), of t]
          by auto
      qed
    qed
  qed
  from all show "submitted d (db s') = submitted d (db s)" by blast
  from all show "paused_of d (db s') = paused_of d (db s)" by blast
  from all show "minutes_of d (db s') = minutes_of d (db s) \<or>
         (minutes_of d (db s') = minutes_of d (db s) + 1 \<and> d = now_increment t \<and>
          \<not> paused_of d (db s) \<and> probe_active t \<and>
          (\<exists>p. currentEntry s = Some p \<and> \<not> IsPaused (heap s p)))" by blast
  from all show "d \<noteq> now_increment t \<Longrightarrow> d \<noteq> now_refresh t \<Longrightarrow> d \<noteq> now_newday t \<Longrightarrow>
         entry_of d (db s') = entry_of d (db s)" by blast
  from all show "wf_db (db s) \<Longrightarrow> wf_db (db s')" by blast
  from all show "\<exists>q. currentEntry s' = Some q" by blast
qed

lemma tick_total:
  "currentEntry s = Some p \<Longrightarrow> \<exists>s'. processMinuteIncrement cfg t s = Some s'"
  by (auto simp: processMinuteIncrement_def Let_def split: option.splits prod.splits sum.splits)

lemma trackingLoop_monotone:
  "currentEntry s = Some p \<Longrightarrow>
     \<exists>s'. trackingLoop cfg ticks s = Some s' \<and> minutes_of d (db s) \<le> minutes_of d (db s')"
proof (induction ticks arbitrary: s p)
  case Nil
  then show ?case by simp
next
  case (Cons t ticks)
  from tick_total[OF Cons.prems] obtain s1 where
    t: "processMinuteIncrement cfg t s = Some s1" by blast
  from tick_db(6)[OF t] obtain q where q: "currentEntry s1 = Some q" by blast
  from Cons.IH[OF q] obtain s' where
    l: "trackingLoop cfg ticks s1 = Some s'" and m: "minutes_of d (db s1) \<le> minutes_of d (db s')"
    by blast
  from tick_db(3)[OF t, of d] have "minutes_of d (db s) \<le> minutes_of d (db s1)" by auto
  with t l m show ?case by auto
qed

text \<open>
  Claim C1. For every sequence of ticks of a started detector the loop returns, and the
  minutes persisted for any date never decrease; within one tick the minutes of a date
  either stay as they are or grow by exactly one, and they grow only when the probe
  reported active and the cached record was not paused (and the persisted record of that
  date was not paused either). On every other tick they are unchanged.
\<close>

theorem accrued_minutes_monotone:
  assumes "currentEntry s = Some p"
  shows "(\<exists>s'. trackingLoop cfg ticks s = Some s' \<and>
               minutes_of d (db s) \<le> minutes_of d (db s')) \<and>
         (\<exists>s'. processMinuteIncrement cfg t s = Some s' \<and>
               (minutes_of d (db s') = minutes_of d (db s) \<or>
                (minutes_of d (db s') = minutes_of d (db s) + 1 \<and> probe_active t \<and>
                 \<not> IsPaused (heap s p) \<and> \<not> paused_of d (db s))))"
proof
  show "\<exists>s'. trackingLoop cfg ticks s = Some s' \<and> minutes_of d (db s) \<le> minutes_of d (db s')"
    by (rule trackingLoop_monotone[OF assms])
  from tick_total[OF assms] obtain s' where t: "processMinuteIncrement cfg t s = Some s'"
    by blast
  from tick_db(3)[OF t, of d] assms
  have "minutes_of d (db s') = minutes_of d (db s) \<or>
        (minutes_of d (db s') = minutes_of d (db s) + 1 \<and> probe_active t \<and>
         \<not> IsPaused (heap s p) \<and> \<not> paused_of d (db s))"
    by auto
  with t show "\<exists>s'. processMinuteIncrement cfg t s = Some s' \<and>
               (minutes_of d (db s') = minutes_of d (db s) \<or>
                (minutes_of d (db s') = minutes_of d (db s) + 1 \<and> probe_active t \<and>
                 \<not> IsPaused (heap s p) \<and> \<not> paused_of d (db s)))"
    by blast
qed

lemma Start_fresh:
  "Start cfg ts today (NewActivityDetector (initSchema [])) =
     (None,
      (NewActivityDetector
         (\<lparr>daily_time = [fresh_row ts today 1], system_events = [], daily_time_seq = 1,
           system_events_seq = 0, faults = []\<rparr>))
        \<lparr>heap := (heap (NewActivityDetector (initSchema [])))(0 := fresh_row ts today 1),
         heap_next := Suc 0,
         log_output := [LogDetectorStarted 0],
         monitorRunning := True, isTracking := True, currentEntry := Some 0\<rparr>)"
  by (simp add: Start_def NewActivityDetector_def initSchema_def GetTodayEntry_def
      GetEntryForDate_def select_by_date_def driver_call_def createEntryForDate_def
      insert_daily_time_def GetEntryByID_def select_by_id_def new_entry_def logPrintf_def
      fresh_row_def Let_def)

theorem accrued_minutes_monotone_witness:
  "currentEntry (snd (Start (NewTimer_config 8 360) 1 ''2024-01-15''
       (NewActivityDetector (initSchema [])))) = Some 0 \<and>
   (\<exists>s'. trackingLoop (NewTimer_config 8 360)
            [\<lparr>probe_active = True, stamp = 2, now_increment = ''2024-01-15'',
              now_refresh = ''2024-01-15'', now_rollover = ''2024-01-15'',
              now_newday = ''2024-01-15''\<rparr>]
            (snd (Start (NewTimer_config 8 360) 1 ''2024-01-15''
               (NewActivityDetector (initSchema [])))) = Some s' \<and>
         minutes_of ''2024-01-15''
           (db (snd (Start (NewTimer_config 8 360) 1 ''2024-01-15''
               (NewActivityDetector (initSchema []))))) \<le> minutes_of ''2024-01-15'' (db s'))"
proof -
  have c: "currentEntry (snd (Start (NewTimer_config 8 360) 1 ''2024-01-15''
       (NewActivityDetector (initSchema [])))) = Some 0"
    by (simp add: Start_fresh)
  from accrued_minutes_monotone[OF c] c show ?thesis by blast
qed

text \<open>
  Claim C10. Without a current record (\<^verbatim>\<open>Start\<close> has not completed), \<^verbatim>\<open>TogglePause\<close> and
  \<^verbatim>\<open>SetPause\<close> return the error "no current entry to pause/resume" and leave the whole
  process state as it was: nothing is persisted, the cache is unchanged and no observer
  goroutine is started.
\<close>

theorem pause_without_current_entry:
  assumes "currentEntry s = None"
  shows "TogglePause ts today active s =
           (Some (Errorf ''no current entry to pause/resume'' None), s) \<and>
         SetPause ts today active paused s =
           (Some (Errorf ''no current entry to pause/resume'' None), s)"
  using assms by (simp add: TogglePause_def SetPause_def)

theorem pause_without_current_entry_witness:
  "currentEntry (NewActivityDetector (initSchema [])) = None \<and>
   TogglePause 1 ''2024-01-15'' True (NewActivityDetector (initSchema [])) =
     (Some (Errorf ''no current entry to pause/resume'' None),
      NewActivityDetector (initSchema [])) \<and>
   SetPause 1 ''2024-01-15'' True True (NewActivityDetector (initSchema [])) =
     (Some (Errorf ''no current entry to pause/resume'' None),
      NewActivityDetector (initSchema []))"
proof -
  have c: "currentEntry (NewActivityDetector (initSchema [])) = None"
    by (simp add: NewActivityDetector_def)
  from pause_without_current_entry[OF c] c show ?thesis by simp
qed

end
